(* ===== verification/Prelude.thy ===== *)
theory Prelude
  imports Main
    "HOL-Library.List_Lexorder"
    "HOL-Library.Char_ord"
    "HOL-Library.Product_Lexorder"
    "HOL-Library.Sublist"
    "HOL-Library.Multiset"
begin

text \<open>
  Shared vocabulary of the development: the type names of the model, the few
  JavaScript built-ins the repository's code calls on strings
  (\<open>String.prototype.toLowerCase\<close>, \<open>trim\<close>, \<open>includes\<close>, \<open>indexOf\<close> and
  \<open>String(n)\<close> for a count), each as an executable HOL function, and the
  generic lemmas about them that the component theories use.  The built-ins are
  modelled on ASCII text: characters are bytes, as \<open>string\<close> is \<open>char list\<close>.
\<close>

named_theorems js_simps \<open>characteristic equations of the modelled JavaScript built-ins\<close>
named_theorems wf_intros \<open>preservation rules of the well-formedness invariants\<close>

type_synonym url = string
type_synonym timestamp = int

subsection \<open>String.prototype.toLowerCase\<close>

definition js_lower_char :: "char \<Rightarrow> char" where
  "js_lower_char c =
     (if CHR ''A'' \<le> c \<and> c \<le> CHR ''Z'' then char_of (of_char c + (32::nat)) else c)"

definition js_lower :: "string \<Rightarrow> string" where
  "js_lower s = map js_lower_char s"

subsection \<open>String.prototype.trim (ASCII white space)\<close>

definition is_js_space :: "char \<Rightarrow> bool" where
  "is_js_space c \<longleftrightarrow> c \<in> set [CHR '' '', CHR 0x09, CHR 0x0A, CHR 0x0B, CHR 0x0C, CHR 0x0D]"

definition js_trim :: "string \<Rightarrow> string" where
  "js_trim s = rev (dropWhile is_js_space (rev (dropWhile is_js_space s)))"

subsection \<open>String.prototype.includes and indexOf\<close>

text \<open>
  \<open>hay.includes(needle)\<close>: the needle occurs as a contiguous block; the empty
  needle occurs in every string.  \<open>js_index_of\<close> is \<open>indexOf\<close> with \<open>None\<close>
  for \<open>-1\<close>.
\<close>

fun js_includes :: "string \<Rightarrow> string \<Rightarrow> bool" where
  "js_includes [] needle = (needle = [])"
| "js_includes (c # cs) needle = (prefix needle (c # cs) \<or> js_includes cs needle)"

fun js_index_of :: "string \<Rightarrow> string \<Rightarrow> nat option" where
  "js_index_of [] needle = (if needle = [] then Some 0 else None)"
| "js_index_of (c # cs) needle =
     (if prefix needle (c # cs) then Some 0 else map_option Suc (js_index_of cs needle))"

subsection \<open>String(n) for a non-negative integer\<close>

definition digit_char :: "nat \<Rightarrow> char" where
  "digit_char d = char_of (48 + d)"

fun nat_str :: "nat \<Rightarrow> string" where
  "nat_str n = (if n < 10 then [digit_char n] else nat_str (n div 10) @ [digit_char (n mod 10)])"

declare nat_str.simps [simp del]

subsection \<open>Array.from(new Set(xs))\<close>

text \<open>A JavaScript \<open>Set\<close> built by iterating \<open>xs\<close> keeps each value at its
  first insertion; \<open>Array.from\<close> lists it in insertion order.  (HOL's
  \<open>remdups\<close> keeps last occurrences instead.)\<close>

definition js_set_add :: "'a list \<Rightarrow> 'a \<Rightarrow> 'a list" where
  "js_set_add seen x = (if x \<in> set seen then seen else seen @ [x])"

definition js_set_list :: "'a list \<Rightarrow> 'a list" where
  "js_set_list xs = foldl js_set_add [] xs"

subsection \<open>Generic lemmas\<close>

lemma js_includes_iff_sublist [js_simps]: "js_includes hay needle \<longleftrightarrow> sublist needle hay"
  by (induction hay) (auto simp: sublist_Cons_right)

lemma js_index_of_Some_prefix:
  "js_index_of hay needle = Some i \<Longrightarrow> prefix needle (drop i hay)"
  by (induction hay arbitrary: i) (auto split: if_splits)

lemma js_index_of_None_iff: "js_index_of hay needle = None \<longleftrightarrow> \<not> js_includes hay needle"
  by (induction hay) auto

lemma js_index_of_Some_bound:
  "js_index_of hay needle = Some i \<Longrightarrow> i + length needle \<le> length hay"
proof (induction hay arbitrary: i)
  case Nil
  then show ?case by (simp split: if_splits)
next
  case (Cons c cs)
  then show ?case by (auto split: if_splits dest: prefix_length_le)
qed

lemma js_lower_length [simp]: "length (js_lower s) = length s"
  by (simp add: js_lower_def)

lemma js_lower_char_idem [simp]: "js_lower_char (js_lower_char c) = js_lower_char c"
  unfolding js_lower_char_def less_eq_char_def by auto

lemma js_lower_idem [simp]: "js_lower (js_lower s) = js_lower s"
  by (simp add: js_lower_def comp_def)

lemma js_lower_append [simp]: "js_lower (s @ t) = js_lower s @ js_lower t"
  by (simp add: js_lower_def)

lemma js_trim_Nil [simp]: "js_trim [] = []"
  by (simp add: js_trim_def)

lemma dropWhile_rev_dropWhile:
  "dropWhile P (rev (dropWhile P (rev (dropWhile P s)))) = rev (dropWhile P (rev (dropWhile P s)))"
proof (cases "dropWhile P s")
  case Nil
  then show ?thesis by (simp only:) simp
next
  case (Cons a t)
  then have "\<not> P a" by (metis dropWhile_eq_Cons_conv)
  have "dropWhile P (rev t @ [a]) = dropWhile P (rev t) @ [a]"
    using \<open>\<not> P a\<close> by (simp add: dropWhile_append dropWhile_eq_Nil_conv)
  with \<open>\<not> P a\<close> Cons show ?thesis by simp
qed

lemma js_trim_idem [simp]: "js_trim (js_trim s) = js_trim s"
  by (simp add: js_trim_def dropWhile_rev_dropWhile)

lemma nat_str_not_Nil [simp]: "nat_str n \<noteq> []"
  by (subst nat_str.simps) simp

lemma js_set_list_snoc [simp]: "js_set_list (xs @ [x]) = js_set_add (js_set_list xs) x"
  by (simp add: js_set_list_def)

lemma js_set_list_Nil [simp]: "js_set_list [] = []"
  by (simp add: js_set_list_def)

lemma set_js_set_list [simp]: "set (js_set_list xs) = set xs"
  by (induction xs rule: rev_induct) (auto simp: js_set_add_def)

lemma distinct_js_set_list [simp]: "distinct (js_set_list xs)"
  by (induction xs rule: rev_induct) (auto simp: js_set_add_def)

lemma js_set_list_distinct_id: "distinct xs \<Longrightarrow> js_set_list xs = xs"
  by (induction xs rule: rev_induct) (auto simp: js_set_add_def)

lemma js_set_list_eq_rev_remdups: "js_set_list xs = rev (remdups (rev xs))"
  by (induction xs rule: rev_induct) (auto simp: js_set_add_def)

lemma sorted_append_le:
  "sorted (map f (xs @ ys)) \<Longrightarrow> a \<in> set xs \<Longrightarrow> b \<in> set ys \<Longrightarrow> f a \<le> f b"
  by (auto simp: sorted_append)

end
