(* ===== verification/Report_Types.thy ===== *)
theory Report_Types
  imports Prelude
begin

text \<open>
  The data the components exchange.  \<open>agent_config\<close> and \<open>trigger_mode\<close> are read
  off the request schema of \<open>src/webapp/src/app/api/scan/route.ts\<close> and the
  \<open>TriggerMode\<close> alias of \<open>AgentDashboard.tsx\<close>; the report, insight, article and
  notification types live in \<open>lib/types.ts\<close>, which is not part of \<open>src/\<close>, and
  are modelled from the fields the dashboard reads and from the data model of the
  specification.  \<open>risk_level\<close> is ordered \<open>Low < Medium < High\<close> by an
  instantiation of \<open>linorder\<close>, so that the library's sorting and \<open>max\<close> apply.
\<close>

datatype trigger_mode = Manual | Daily | Weekly | Realtime

datatype risk_level = Low | Medium | High

fun risk_rank :: "risk_level \<Rightarrow> nat" where
  "risk_rank Low = 1"
| "risk_rank Medium = 2"
| "risk_rank High = 3"

instantiation risk_level :: linorder
begin

definition less_eq_risk_level :: "risk_level \<Rightarrow> risk_level \<Rightarrow> bool" where
  "less_eq_risk_level a b \<longleftrightarrow> risk_rank a \<le> risk_rank b"

definition less_risk_level :: "risk_level \<Rightarrow> risk_level \<Rightarrow> bool" where
  "less_risk_level a b \<longleftrightarrow> risk_rank a < risk_rank b"

instance
proof
  fix x y z :: risk_level
  show "x < y \<longleftrightarrow> x \<le> y \<and> \<not> y \<le> x"
    by (auto simp: less_eq_risk_level_def less_risk_level_def)
  show "x \<le> x" by (simp add: less_eq_risk_level_def)
  show "x \<le> y \<Longrightarrow> y \<le> z \<Longrightarrow> x \<le> z" by (simp add: less_eq_risk_level_def)
  show "x \<le> y \<Longrightarrow> y \<le> x \<Longrightarrow> x = y"
    by (cases x; cases y) (simp_all add: less_eq_risk_level_def)
  show "x \<le> y \<or> y \<le> x" by (auto simp: less_eq_risk_level_def)
qed

end

text \<open>The configuration accepted by \<open>scanRequestSchema\<close> (route.ts, lines 8--18).\<close>

record agent_config =
  sources :: "url list"
  keywordList :: "string list"
  industry :: string
  emails :: "string list"
  whatsappNumbers :: "string list"
  enableDailyDigest :: bool
  enableWeeklyDigest :: bool
  enableRealtimeAlerts :: bool

text \<open>An article as the dashboard renders it (\<open>insight.article\<close>), with the body
  text the scorer reads.\<close>

record article =
  title :: string
  url :: url
  source :: string
  publishedAt :: timestamp
  body :: string

record insight =
  insightId :: string
  article :: article
  riskLevel :: risk_level
  impactSummary :: string
  keyQuotes :: "string list"
  categories :: "string list"

text \<open>The report-level severity: a risk level, or the neutral state of a report
  with no qualifying insight.\<close>

datatype severity = NoSignificantRisk | Severity risk_level

record risk_report =
  triggerMode :: trigger_mode
  generatedAt :: timestamp
  reportIndustry :: string
  severity :: severity
  overview :: string
  dominantThemes :: "string list"
  insights :: "insight list"
  recommendations :: "string list"
  keywordHits :: "(string \<times> nat) list"

text \<open>Per-channel delivery outcome, and its JSON shape \<open>{success, error?}\<close> as the
  dashboard reads it (\<open>None\<close> is an absent entry, \<open>undefined\<close>).\<close>

datatype channel = EmailChannel | WhatsAppChannel

datatype outcome = Sent | Skipped | Failed string

record notification_result =
  emailOutcome :: outcome
  whatsappOutcome :: outcome

type_synonym outcome_json = "(bool \<times> string option) option"

fun outcome_json :: "outcome \<Rightarrow> outcome_json" where
  "outcome_json Sent = Some (True, None)"
| "outcome_json Skipped = None"
| "outcome_json (Failed m) = Some (False, Some m)"

record scan_result =
  report :: risk_report
  notifications :: notification_result
  articleCount :: nat

fun trigger_mode_str :: "trigger_mode \<Rightarrow> string" where
  "trigger_mode_str Manual = ''manual''"
| "trigger_mode_str Daily = ''daily''"
| "trigger_mode_str Weekly = ''weekly''"
| "trigger_mode_str Realtime = ''realtime''"

fun risk_level_str :: "risk_level \<Rightarrow> string" where
  "risk_level_str Low = ''Low''"
| "risk_level_str Medium = ''Medium''"
| "risk_level_str High = ''High''"

fun severity_str :: "severity \<Rightarrow> string" where
  "severity_str NoSignificantRisk = ''No significant risk''"
| "severity_str (Severity l) = risk_level_str l"

lemma risk_level_order_simps [simp]:
  "Low < Medium" "Medium < High" "Low < High" "x \<le> High" "Low \<le> x"
  "x < Low \<longleftrightarrow> False" "High < x \<longleftrightarrow> False"
  by (cases x; simp add: less_eq_risk_level_def less_risk_level_def)+

lemma risk_rank_inj [simp]: "risk_rank a = risk_rank b \<longleftrightarrow> a = b"
  by (cases a; cases b) simp_all

lemma risk_rank_le_iff: "risk_rank a \<le> risk_rank b \<longleftrightarrow> a \<le> b"
  by (simp add: less_eq_risk_level_def)

lemma trigger_mode_str_inj [simp]: "trigger_mode_str m = trigger_mode_str m' \<longleftrightarrow> m = m'"
  by (cases m; cases m') simp_all

end
