(* ===== verification/Scan_Route.thy ===== *)
theory Scan_Route
  imports Report_Types
begin

text \<open>
  The scan endpoint, \<open>src/webapp/src/app/api/scan/route.ts\<close>.  A request body is a
  JSON value; \<open>scanRequestSchema\<close> (lines 7--23) is modelled as an executable
  decoder that, like zod's \<open>parse\<close>, walks every field of the schema in order and
  either returns the typed request or the list of all issues found.  zod's
  \<open>.default(v)\<close> feeds \<open>v\<close> through the inner schema when the field is absent
  (zod 3 semantics), so a default is decoded from its JSON encoding.  The string
  format checks \<open>.url()\<close> and \<open>.email()\<close> belong to zod and are parameters
  (\<open>url_ok\<close>, \<open>email_ok\<close>) of the route environment, as are \<open>DEFAULT_CONFIG\<close>
  and \<open>buildServerConfig()\<close>, whose modules are not under \<open>src/\<close>.  The handler
  \<open>POST\<close> (lines 25--53) and \<open>GET\<close> (lines 55--88) take \<open>runAgentScan\<close> as a
  function argument that either throws (\<open>Inl\<close>) or returns a scan result.
\<close>

datatype json = JNull | JBool bool | JNum int | JStr string | JArr "json list"
  | JObj "(string \<times> json) list"

text \<open>\<open>JSON.parse\<close> keeps the last of repeated keys.\<close>

definition json_field :: "(string \<times> json) list \<Rightarrow> string \<Rightarrow> json option" where
  "json_field kvs k = map_of (rev kvs) k"

datatype issue_code = InvalidType | TooSmall nat | InvalidUrl | InvalidEmail | InvalidEnumValue

datatype zod_issue = Issue "string list" issue_code

record route_env =
  url_ok :: "string \<Rightarrow> bool"
  email_ok :: "string \<Rightarrow> bool"
  default_config :: agent_config
  server_config :: agent_config

text \<open>A thrown value: an \<open>Error\<close> instance with its message, or anything else.\<close>

datatype thrown = JsError string | NonError

datatype request_body = ValidJson json | MalformedJson string

subsection \<open>JSON encodings (\<open>JSON.stringify\<close>)\<close>

definition strs_json :: "string list \<Rightarrow> json" where
  "strs_json xs = JArr (map JStr xs)"

definition config_json :: "agent_config \<Rightarrow> json" where
  "config_json c = JObj
     [(''sources'', strs_json (sources c)),
      (''keywords'', strs_json (keywordList c)),
      (''industry'', JStr (industry c)),
      (''emails'', strs_json (emails c)),
      (''whatsappNumbers'', strs_json (whatsappNumbers c)),
      (''enableDailyDigest'', JBool (enableDailyDigest c)),
      (''enableWeeklyDigest'', JBool (enableWeeklyDigest c)),
      (''enableRealtimeAlerts'', JBool (enableRealtimeAlerts c))]"

definition scan_request_json :: "agent_config \<Rightarrow> trigger_mode \<Rightarrow> json" where
  "scan_request_json c m =
     JObj [(''config'', config_json c), (''triggerMode'', JStr (trigger_mode_str m))]"

text \<open>What the schema demands of a configuration (\<open>min(1)\<close>, \<open>url()\<close>,
  \<open>min(2)\<close>, \<open>email()\<close>).\<close>

definition config_valid :: "route_env \<Rightarrow> agent_config \<Rightarrow> bool" where
  "config_valid env c \<longleftrightarrow>
     sources c \<noteq> [] \<and> list_all (url_ok env) (sources c) \<and> keywordList c \<noteq> [] \<and>
     2 \<le> length (industry c) \<and> list_all (email_ok env) (emails c)"

subsection \<open>Field decoders of the schema\<close>

fun json_str :: "json \<Rightarrow> string" where
  "json_str (JStr s) = s"
| "json_str _ = []"

definition elem_issue :: "(string \<Rightarrow> issue_code option) \<Rightarrow> json \<Rightarrow> issue_code option" where
  "elem_issue chk j = (case j of JStr s \<Rightarrow> chk s | _ \<Rightarrow> Some InvalidType)"

definition min_issues :: "nat \<Rightarrow> string list \<Rightarrow> nat \<Rightarrow> zod_issue list" where
  "min_issues n p len = (if len < n then [Issue p (TooSmall n)] else [])"

text \<open>\<open>z.array(z.string()...).min(n)\<close>: the length issue first, then one issue per
  bad element, with the index in the path.\<close>

fun elem_issues ::
  "(string \<Rightarrow> issue_code option) \<Rightarrow> string list \<Rightarrow> nat \<Rightarrow> json list \<Rightarrow> zod_issue list" where
  "elem_issues chk p i [] = []"
| "elem_issues chk p i (it # its) =
     (case elem_issue chk it of None \<Rightarrow> [] | Some c \<Rightarrow> [Issue (p @ [nat_str i]) c]) @
     elem_issues chk p (Suc i) its"

definition parse_string_array ::
  "(string \<Rightarrow> issue_code option) \<Rightarrow> nat \<Rightarrow> string list \<Rightarrow> json \<Rightarrow> zod_issue list + string list" where
  "parse_string_array chk n p j =
     (case j of
        JArr items \<Rightarrow>
          (let is = min_issues n p (length items) @ elem_issues chk p 0 items
           in if is = [] then Inr (map json_str items) else Inl is)
      | _ \<Rightarrow> Inl [Issue p InvalidType])"

text \<open>\<open>z.string().min(n)\<close> and \<open>z.boolean()\<close>.\<close>

definition parse_min_string :: "nat \<Rightarrow> string list \<Rightarrow> json \<Rightarrow> zod_issue list + string" where
  "parse_min_string n p j =
     (case j of
        JStr s \<Rightarrow> (if length s < n then Inl [Issue p (TooSmall n)] else Inr s)
      | _ \<Rightarrow> Inl [Issue p InvalidType])"

definition parse_bool :: "string list \<Rightarrow> json \<Rightarrow> zod_issue list + bool" where
  "parse_bool p j = (case j of JBool b \<Rightarrow> Inr b | _ \<Rightarrow> Inl [Issue p InvalidType])"

definition url_check :: "route_env \<Rightarrow> string \<Rightarrow> issue_code option" where
  "url_check env s = (if url_ok env s then None else Some InvalidUrl)"

definition email_check :: "route_env \<Rightarrow> string \<Rightarrow> issue_code option" where
  "email_check env s = (if email_ok env s then None else Some InvalidEmail)"

fun issues_of :: "zod_issue list + 'a \<Rightarrow> zod_issue list" where
  "issues_of (Inl is) = is"
| "issues_of (Inr _) = []"

text \<open>A field of an object: its value when present, else the default's encoding.\<close>

definition field_or :: "(string \<times> json) list \<Rightarrow> string \<Rightarrow> json \<Rightarrow> json" where
  "field_or kvs k d = (case json_field kvs k of Some j \<Rightarrow> j | None \<Rightarrow> d)"

subsection \<open>scanRequestSchema\<close>

definition parse_config :: "route_env \<Rightarrow> json \<Rightarrow> zod_issue list + agent_config" where
  "parse_config env j =
     (case j of
        JObj kvs \<Rightarrow>
          (let dflt = default_config env;
               src = parse_string_array (url_check env) 1 [''config'', ''sources'']
                       (field_or kvs ''sources'' (strs_json (sources dflt)));
               kw = parse_string_array (\<lambda>_. None) 1 [''config'', ''keywords'']
                       (field_or kvs ''keywords'' (strs_json (keywordList dflt)));
               ind = parse_min_string 2 [''config'', ''industry'']
                       (field_or kvs ''industry'' (JStr (industry dflt)));
               em = parse_string_array (email_check env) 0 [''config'', ''emails'']
                       (field_or kvs ''emails'' (strs_json []));
               wa = parse_string_array (\<lambda>_. None) 0 [''config'', ''whatsappNumbers'']
                       (field_or kvs ''whatsappNumbers'' (strs_json []));
               dd = parse_bool [''config'', ''enableDailyDigest'']
                       (field_or kvs ''enableDailyDigest'' (JBool True));
               wd = parse_bool [''config'', ''enableWeeklyDigest'']
                       (field_or kvs ''enableWeeklyDigest'' (JBool True));
               rt = parse_bool [''config'', ''enableRealtimeAlerts'']
                       (field_or kvs ''enableRealtimeAlerts'' (JBool True));
               is = issues_of src @ issues_of kw @ issues_of ind @ issues_of em @
                    issues_of wa @ issues_of dd @ issues_of wd @ issues_of rt
           in if is = [] then
                Inr \<lparr>sources = projr src, keywordList = projr kw, industry = projr ind,
                     emails = projr em, whatsappNumbers = projr wa,
                     enableDailyDigest = projr dd, enableWeeklyDigest = projr wd,
                     enableRealtimeAlerts = projr rt\<rparr>
              else Inl is)
      | _ \<Rightarrow> Inl [Issue [''config''] InvalidType])"

definition parse_trigger_mode :: "json \<Rightarrow> zod_issue list + trigger_mode" where
  "parse_trigger_mode j =
     (case j of
        JStr s \<Rightarrow>
          (if s = ''manual'' then Inr Manual else if s = ''daily'' then Inr Daily
           else if s = ''weekly'' then Inr Weekly else if s = ''realtime'' then Inr Realtime
           else Inl [Issue [''triggerMode''] InvalidEnumValue])
      | _ \<Rightarrow> Inl [Issue [''triggerMode''] InvalidType])"

definition parse_scan_request ::
  "route_env \<Rightarrow> json \<Rightarrow> zod_issue list + (agent_config \<times> trigger_mode)" where
  "parse_scan_request env j =
     (case j of
        JObj kvs \<Rightarrow>
          (let c = parse_config env (field_or kvs ''config'' (config_json (server_config env)));
               m = parse_trigger_mode (field_or kvs ''triggerMode'' (JStr ''manual''));
               is = issues_of c @ issues_of m
           in if is = [] then Inr (projr c, projr m) else Inl is)
      | _ \<Rightarrow> Inl [Issue [] InvalidType])"

subsection \<open>Handlers\<close>

datatype response_body = ScanOk risk_report notification_result nat | ApiError string

record http_response =
  status :: nat
  resp_body :: response_body

text \<open>\<open>error instanceof Error ? error.message : "Unexpected error"\<close>.\<close>

fun error_message :: "thrown \<Rightarrow> string" where
  "error_message (JsError m) = m"
| "error_message NonError = ''Unexpected error''"

definition error_response :: "thrown \<Rightarrow> http_response" where
  "error_response t = \<lparr>status = 500, resp_body = ApiError (error_message t)\<rparr>"

definition ok_response :: "scan_result \<Rightarrow> http_response" where
  "ok_response r = \<lparr>status = 200,
     resp_body = ScanOk (report r) (notifications r) (articleCount r)\<rparr>"

fun code_str :: "issue_code \<Rightarrow> string" where
  "code_str InvalidType = ''invalid_type''"
| "code_str (TooSmall n) = ''too_small''"
| "code_str InvalidUrl = ''invalid_url''"
| "code_str InvalidEmail = ''invalid_email''"
| "code_str InvalidEnumValue = ''invalid_enum_value''"

text \<open>The message of the thrown \<open>ZodError\<close>: one line per issue, path and code.\<close>

fun render_issue :: "zod_issue \<Rightarrow> string" where
  "render_issue (Issue p c) = concat (map (\<lambda>k. k @ ''.'') p) @ code_str c @ ''\<newline>''"

definition zod_message :: "zod_issue list \<Rightarrow> string" where
  "zod_message is = concat (map render_issue is)"

type_synonym scan_runner = "agent_config \<Rightarrow> trigger_mode \<Rightarrow> thrown + scan_result"

definition scan_post :: "route_env \<Rightarrow> scan_runner \<Rightarrow> request_body \<Rightarrow> http_response" where
  "scan_post env run b =
     (case b of
        MalformedJson m \<Rightarrow> error_response (JsError m)
      | ValidJson j \<Rightarrow>
          (case parse_scan_request env j of
             Inl is \<Rightarrow> error_response (JsError (zod_message is))
           | Inr (cfg, mode) \<Rightarrow>
               (case run cfg mode of
                  Inl t \<Rightarrow> error_response t
                | Inr r \<Rightarrow> ok_response r)))"

definition get_trigger_mode :: "string option \<Rightarrow> trigger_mode" where
  "get_trigger_mode p =
     (if p = Some ''weekly'' then Weekly else if p = Some ''realtime'' then Realtime else Daily)"

definition scan_get :: "route_env \<Rightarrow> scan_runner \<Rightarrow> string option \<Rightarrow> http_response" where
  "scan_get env run p =
     (case run (server_config env) (get_trigger_mode p) of
        Inl t \<Rightarrow> error_response t
      | Inr r \<Rightarrow> ok_response r)"

subsection \<open>Sample data for the witnesses\<close>

abbreviation sample_config :: agent_config where
  "sample_config \<equiv> \<lparr>sources = [''https://a.test''], keywordList = [''tariff''],
     industry = ''Automobile'', emails = [''ops@a.test''], whatsappNumbers = [],
     enableDailyDigest = True, enableWeeklyDigest = True, enableRealtimeAlerts = True\<rparr>"

abbreviation sample_env :: route_env where
  "sample_env \<equiv> \<lparr>url_ok = prefix ''https://'', email_ok = (\<lambda>s. CHR ''@'' \<in> set s),
     default_config = sample_config, server_config = sample_config\<rparr>"

subsection \<open>Decoding lemmas\<close>

text \<open>No decoder fails without an issue, so a failed parse always carries one.\<close>

lemma elem_issues_Nil_iff:
  "elem_issues chk p k items = [] \<longleftrightarrow> list_all (\<lambda>it. elem_issue chk it = None) items"
  by (induction items arbitrary: k) (auto split: option.splits)

lemma parse_string_array_not_Inl_Nil [simp]: "parse_string_array chk n p j \<noteq> Inl []"
  by (auto simp: parse_string_array_def Let_def split: json.splits)

lemma parse_min_string_not_Inl_Nil [simp]: "parse_min_string n p j \<noteq> Inl []"
  by (auto simp: parse_min_string_def split: json.splits)

lemma parse_bool_not_Inl_Nil [simp]: "parse_bool p j \<noteq> Inl []"
  by (auto simp: parse_bool_def split: json.splits)

lemma parse_trigger_mode_not_Inl_Nil [simp]: "parse_trigger_mode j \<noteq> Inl []"
  by (auto simp: parse_trigger_mode_def split: json.splits)

lemma parse_config_not_Inl_Nil [simp]: "parse_config env j \<noteq> Inl []"
  by (auto simp: parse_config_def Let_def split: json.splits)

lemma issues_of_Nil_iff: "r \<noteq> Inl [] \<Longrightarrow> issues_of r = [] \<longleftrightarrow> (\<exists>v. r = Inr v)"
  by (cases r) auto

lemma parse_string_array_strs_valid:
  "n \<le> length xs \<Longrightarrow> list_all (\<lambda>x. chk x = None) xs \<Longrightarrow>
   parse_string_array chk n p (strs_json xs) = Inr xs"
  by (auto simp: parse_string_array_def strs_json_def min_issues_def elem_issues_Nil_iff
      elem_issue_def list_all_iff comp_def map_idI)

lemma parse_string_array_strs_Inr:
  "parse_string_array chk n p (strs_json xs) = Inr ys \<Longrightarrow>
   ys = xs \<and> n \<le> length xs \<and> list_all (\<lambda>x. chk x = None) xs"
  by (auto simp: parse_string_array_def strs_json_def min_issues_def elem_issues_Nil_iff
      elem_issue_def list_all_iff comp_def map_idI split: if_splits)

lemma parse_trigger_mode_str [simp]: "parse_trigger_mode (JStr (trigger_mode_str m)) = Inr m"
  by (cases m) (simp_all add: parse_trigger_mode_def)

lemma list_all_check_iff:
  "list_all (\<lambda>x. url_check env x = None) xs \<longleftrightarrow> list_all (url_ok env) xs"
  "list_all (\<lambda>x. email_check env x = None) xs \<longleftrightarrow> list_all (email_ok env) xs"
  by (simp_all add: url_check_def email_check_def list_all_iff)

lemma parse_config_json_valid:
  "config_valid env c \<Longrightarrow> parse_config env (config_json c) = Inr c"
  by (simp add: parse_config_def config_json_def field_or_def json_field_def Let_def
      parse_string_array_strs_valid parse_min_string_def parse_bool_def
      list_all_check_iff config_valid_def Suc_le_eq list.pred_True)

lemma issues_of_string_array_Nil:
  "issues_of (parse_string_array chk n p j) = [] \<longleftrightarrow> (\<exists>v. parse_string_array chk n p j = Inr v)"
  by (rule issues_of_Nil_iff) simp

lemma parse_config_json_Inr:
  "parse_config env (config_json c) = Inr c' \<Longrightarrow> config_valid env c \<and> c' = c"
  by (auto simp: parse_config_def config_json_def field_or_def json_field_def Let_def
      parse_min_string_def parse_bool_def issues_of_string_array_Nil config_valid_def
      list_all_check_iff Suc_le_eq split: if_splits dest!: parse_string_array_strs_Inr)
lemma parse_scan_request_not_Inl_Nil [simp]: "parse_scan_request env j \<noteq> Inl []"
  by (auto simp: parse_scan_request_def Let_def split: json.splits)

lemma parse_scan_request_json:
  "parse_scan_request env (scan_request_json c m) =
     (let r = parse_config env (config_json c)
      in if issues_of r = [] then Inr (projr r, m) else Inl (issues_of r))"
  by (simp add: parse_scan_request_def scan_request_json_def field_or_def json_field_def Let_def)

lemma issues_of_parse_config_Nil:
  "issues_of (parse_config env j) = [] \<longleftrightarrow> (\<exists>v. parse_config env j = Inr v)"
  by (rule issues_of_Nil_iff) simp

subsection \<open>Properties of the route\<close>

text \<open>C1 (round trip).  A configuration the schema accepts, sent by the dashboard as
  \<open>JSON.stringify({config, triggerMode})\<close>, is decoded by \<open>scanRequestSchema\<close>
  into exactly that configuration and trigger mode.  The witness shows that the
  schema also accepts repeated keywords and e-mails that differ only in case.\<close>

theorem scan_request_roundtrip:
  "config_valid env c \<Longrightarrow> parse_scan_request env (scan_request_json c m) = Inr (c, m)"
  by (simp add: parse_scan_request_json parse_config_json_valid)

theorem scan_request_roundtrip_witness:
  "config_valid sample_env (sample_config\<lparr>keywordList := [''tariff'', ''tariff''],
      emails := [''Ops@a.test'', ''ops@a.test'']\<rparr>) \<and>
   parse_scan_request sample_env
     (scan_request_json (sample_config\<lparr>keywordList := [''tariff'', ''tariff''],
        emails := [''Ops@a.test'', ''ops@a.test'']\<rparr>) Daily) =
   Inr (sample_config\<lparr>keywordList := [''tariff'', ''tariff''],
        emails := [''Ops@a.test'', ''ops@a.test'']\<rparr>, Daily)"
proof -
  have v: "config_valid sample_env (sample_config\<lparr>keywordList := [''tariff'', ''tariff''],
      emails := [''Ops@a.test'', ''ops@a.test'']\<rparr>)"
    by (simp add: config_valid_def)
  show ?thesis using scan_request_roundtrip[OF v] v by simp
qed

text \<open>C2 (error).  A configuration that violates the schema (no source, a source
  that is no URL, no keyword, an industry shorter than two characters, or a bad
  e-mail) makes \<open>POST /api/scan\<close> answer 500 with the zod error, carrying at
  least one issue.  \<open>runAgentScan\<close> is never called: the answer is the same for
  every runner.\<close>

theorem scan_post_rejects_invalid_config:
  assumes "\<not> config_valid env c"
  shows "\<exists>is. is \<noteq> [] \<and>
    (\<forall>run. scan_post env run (ValidJson (scan_request_json c m)) = error_response (JsError (zod_message is)))"
proof -
  let ?r = "parse_config env (config_json c)"
  have "\<nexists>v. ?r = Inr v" using assms parse_config_json_Inr by blast
  then have ne: "issues_of ?r \<noteq> []" by (simp add: issues_of_parse_config_Nil)
  then have "parse_scan_request env (scan_request_json c m) = Inl (issues_of ?r)"
    by (simp add: parse_scan_request_json)
  with ne show ?thesis by (auto simp: scan_post_def)
qed

theorem scan_post_rejects_invalid_config_witness:
  "\<not> config_valid sample_env (sample_config\<lparr>keywordList := []\<rparr>) \<and>
   (\<exists>is. is \<noteq> [] \<and> (\<forall>run. scan_post sample_env run
      (ValidJson (scan_request_json (sample_config\<lparr>keywordList := []\<rparr>) Manual)) =
      error_response (JsError (zod_message is))))"
proof -
  have nv: "\<not> config_valid sample_env (sample_config\<lparr>keywordList := []\<rparr>)"
    by (simp add: config_valid_def)
  show ?thesis using scan_post_rejects_invalid_config[OF nv] nv by blast
qed

text \<open>C3 (error).  \<open>POST /api/scan\<close> answers 200 exactly when the body is JSON,
  the schema accepts it, and \<open>runAgentScan\<close> returns a result; the answer then
  carries that result.  Every other path (malformed JSON, schema issues, a thrown
  error) is a 500.\<close>

theorem scan_post_status_ok_iff:
  "status (scan_post env run b) = 200 \<longleftrightarrow>
   (\<exists>j c m r. b = ValidJson j \<and> parse_scan_request env j = Inr (c, m) \<and> run c m = Inr r \<and>
      scan_post env run b = ok_response r)"
  by (auto simp: scan_post_def error_response_def ok_response_def
      split: request_body.splits sum.splits prod.splits)

theorem scan_post_status_ok_iff_witness:
  "status (scan_post sample_env (\<lambda>c m. Inl NonError) (MalformedJson ''Unexpected token'')) \<noteq> 200"
  using scan_post_status_ok_iff[of sample_env "\<lambda>c m. Inl NonError" "MalformedJson ''Unexpected token''"]
  by simp

text \<open>C4 (functional).  A request body \<open>{}\<close> is decoded as if it carried the
  server configuration \<open>buildServerConfig()\<close> and the trigger mode \<open>manual\<close>.\<close>

theorem scan_request_defaults:
  "parse_scan_request env (JObj []) = parse_scan_request env (scan_request_json (server_config env) Manual)"
  by (simp add: parse_scan_request_def scan_request_json_def field_or_def json_field_def)

text \<open>C5 (functional).  \<open>GET /api/scan\<close> runs \<open>weekly\<close> for \<open>?triggerMode=weekly\<close>,
  \<open>realtime\<close> for \<open>?triggerMode=realtime\<close>, and \<open>daily\<close> for anything else,
  \<open>manual\<close> and a missing parameter included: it never runs a manual scan.\<close>

theorem scan_get_trigger_mode:
  "get_trigger_mode p \<noteq> Manual \<and>
   (get_trigger_mode p = Weekly \<longleftrightarrow> p = Some ''weekly'') \<and>
   (get_trigger_mode p = Realtime \<longleftrightarrow> p = Some ''realtime'') \<and>
   (get_trigger_mode p = Daily \<longleftrightarrow> p \<noteq> Some ''weekly'' \<and> p \<noteq> Some ''realtime'')"
  by (auto simp: get_trigger_mode_def)

theorem scan_get_trigger_mode_witness:
  "get_trigger_mode (Some ''manual'') = Daily \<and> get_trigger_mode None = Daily"
  using scan_get_trigger_mode[of "Some ''manual''"] scan_get_trigger_mode[of None] by auto
end
