(* ===== verification/Dashboard.thy ===== *)
theory Dashboard
  imports Scan_Route
begin

text \<open>
  The client, \<open>src/webapp/src/components/AgentDashboard.tsx\<close>.  Its React state
  (\<open>config\<close>, \<open>reports\<close>, \<open>scanState\<close>, \<open>draft\<close>) and the browser's
  \<open>localStorage\<close> entry form the record \<open>dash\<close>; the scan requests that
  \<open>triggerScan\<close> has sent and whose replies have not arrived are the list
  \<open>inflight\<close>.  Every handler of the component is one function on \<open>dash\<close>, and
  the user's and the network's actions are the events of \<open>dash_step\<close>, one
  equation per handler, with the guards of the code (an empty draft is ignored, the
  scan buttons are disabled while \<open>scanState.loading\<close>).  A reply may complete
  any in-flight request, as responses can arrive in any order.  The rendering of a
  report (\<open>ReportCard\<close>) and of a tag list (\<open>ConfigTagList\<close>) is modelled as
  the data they display.  \<open>buildDefaultConfig()\<close> (not under \<open>src/\<close>) is a
  parameter \<open>d\<close> of the step.
\<close>

subsection \<open>State\<close>

text \<open>\<open>interface ScanState\<close> (lines 9--14).\<close>

record scan_state =
  loading :: bool
  success :: bool
  message :: "string option"
  noteLines :: "string list option"

definition blankState :: scan_state where
  "blankState = \<lparr>loading = False, success = False, message = None, noteLines = None\<rparr>"

record draft =
  draftSource :: string
  draftKeyword :: string
  draftEmail :: string
  draftWhatsapp :: string

definition empty_draft :: draft where
  "empty_draft = \<lparr>draftSource = [], draftKeyword = [], draftEmail = [], draftWhatsapp = []\<rparr>"

text \<open>The string-list fields of \<open>AgentConfig\<close> that \<open>handleAdd\<close> and
  \<open>handleRemove\<close> are called with.\<close>

datatype list_field = SourcesField | KeywordsField | EmailsField | WhatsappField

fun get_list :: "list_field \<Rightarrow> agent_config \<Rightarrow> string list" where
  "get_list SourcesField c = sources c"
| "get_list KeywordsField c = keywordList c"
| "get_list EmailsField c = emails c"
| "get_list WhatsappField c = whatsappNumbers c"

fun set_list :: "list_field \<Rightarrow> string list \<Rightarrow> agent_config \<Rightarrow> agent_config" where
  "set_list SourcesField xs c = c\<lparr>sources := xs\<rparr>"
| "set_list KeywordsField xs c = c\<lparr>keywordList := xs\<rparr>"
| "set_list EmailsField xs c = c\<lparr>emails := xs\<rparr>"
| "set_list WhatsappField xs c = c\<lparr>whatsappNumbers := xs\<rparr>"

text \<open>What \<open>localStorage.getItem(STORAGE_KEY)\<close> yields once parsed: nothing, the
  empty string (falsy, skipped), text \<open>JSON.parse\<close> rejects, a JSON value that is
  no object (its spread adds no field), or an object with some of the config's
  fields (\<open>persistConfig\<close> writes all of them; an older version of the page may
  have written fewer).\<close>

record partial_config =
  p_sources :: "string list option"
  p_keywords :: "string list option"
  p_industry :: "string option"
  p_emails :: "string list option"
  p_whatsappNumbers :: "string list option"
  p_enableDailyDigest :: "bool option"
  p_enableWeeklyDigest :: "bool option"
  p_enableRealtimeAlerts :: "bool option"

datatype stored_value = StoredEmpty | StoredMalformed | StoredNonObject
  | StoredConfig partial_config

record dash =
  config :: agent_config
  reports :: "risk_report list"
  scanState :: scan_state
  draft :: draft
  storage :: "stored_value option"
  inflight :: "(agent_config \<times> trigger_mode) list"

definition init_dash :: "agent_config \<Rightarrow> stored_value option \<Rightarrow> dash" where
  "init_dash d st = \<lparr>config = d, reports = [], scanState = blankState, draft = empty_draft,
     storage = st, inflight = []\<rparr>"

subsection \<open>Handlers\<close>

text \<open>\<open>sortUnique\<close> (lines 24--25): trim, drop empty strings, keep first occurrences.
  It does not sort.\<close>

definition sortUnique :: "string list \<Rightarrow> string list" where
  "sortUnique items = js_set_list (filter (\<lambda>s. s \<noteq> []) (map js_trim items))"

definition handleAdd :: "list_field \<Rightarrow> string \<Rightarrow> agent_config \<Rightarrow> agent_config" where
  "handleAdd f v c = set_list f (sortUnique (get_list f c @ [v])) c"

definition handleRemove :: "list_field \<Rightarrow> string \<Rightarrow> agent_config \<Rightarrow> agent_config" where
  "handleRemove f v c = set_list f (filter (\<lambda>item. item \<noteq> v) (get_list f c)) c"

text \<open>\<open>{...buildDefaultConfig(), ...parsed}\<close>: a field present in the stored object
  overrides the default.\<close>

definition merge_stored :: "agent_config \<Rightarrow> partial_config \<Rightarrow> agent_config" where
  "merge_stored d p =
     \<lparr>sources = case_option (sources d) id (p_sources p),
      keywordList = case_option (keywordList d) id (p_keywords p),
      industry = case_option (industry d) id (p_industry p),
      emails = case_option (emails d) id (p_emails p),
      whatsappNumbers = case_option (whatsappNumbers d) id (p_whatsappNumbers p),
      enableDailyDigest = case_option (enableDailyDigest d) id (p_enableDailyDigest p),
      enableWeeklyDigest = case_option (enableWeeklyDigest d) id (p_enableWeeklyDigest p),
      enableRealtimeAlerts = case_option (enableRealtimeAlerts d) id (p_enableRealtimeAlerts p)\<rparr>"

text \<open>\<open>JSON.stringify(config)\<close> as \<open>persistConfig\<close> stores it.\<close>

definition stored_of :: "agent_config \<Rightarrow> partial_config" where
  "stored_of c =
     \<lparr>p_sources = Some (sources c), p_keywords = Some (keywordList c),
      p_industry = Some (industry c), p_emails = Some (emails c),
      p_whatsappNumbers = Some (whatsappNumbers c),
      p_enableDailyDigest = Some (enableDailyDigest c),
      p_enableWeeklyDigest = Some (enableWeeklyDigest c),
      p_enableRealtimeAlerts = Some (enableRealtimeAlerts c)\<rparr>"

text \<open>The first half of the mount effect (lines 181--192).\<close>

fun hydrate :: "agent_config \<Rightarrow> stored_value option \<Rightarrow> agent_config \<Rightarrow> agent_config" where
  "hydrate d None c = c"
| "hydrate d (Some StoredEmpty) c = c"
| "hydrate d (Some StoredMalformed) c = c"
| "hydrate d (Some StoredNonObject) c = d"
| "hydrate d (Some (StoredConfig p)) c = merge_stored d p"

definition persistConfig :: "dash \<Rightarrow> dash" where
  "persistConfig s = s\<lparr>storage := Some (StoredConfig (stored_of (config s))),
     scanState := \<lparr>loading = False, success = True,
                   message = Some ''Configuration saved locally.'', noteLines = None\<rparr>\<rparr>"

text \<open>The notification lines of a successful scan (lines 253--264).\<close>

definition email_line :: "outcome_json \<Rightarrow> string" where
  "email_line oj =
     (case oj of
        Some (ok, err) \<Rightarrow>
          (if ok then ''Email dispatch succeeded''
           else case err of
                  Some e \<Rightarrow> (if e \<noteq> [] then ''Email error: '' @ e else ''Email skipped'')
                | None \<Rightarrow> ''Email skipped'')
      | None \<Rightarrow> ''Email skipped'')"

definition whatsapp_line :: "outcome_json \<Rightarrow> string" where
  "whatsapp_line oj =
     (case oj of
        Some (ok, err) \<Rightarrow>
          (if ok then ''WhatsApp alerts delivered''
           else case err of
                  Some e \<Rightarrow> (if e \<noteq> [] then ''WhatsApp error: '' @ e else ''WhatsApp skipped'')
                | None \<Rightarrow> ''WhatsApp skipped'')
      | None \<Rightarrow> ''WhatsApp skipped'')"

text \<open>\<open>triggerScan\<close> (lines 230--276), split at its \<open>await\<close>: the click sends the
  request with the config of the moment, the reply (or the rejected \<open>fetch\<close>)
  finishes it.\<close>

datatype scan_reply = HttpReply http_response | NetworkError string

definition triggerScan_start :: "trigger_mode \<Rightarrow> dash \<Rightarrow> dash" where
  "triggerScan_start m s = s\<lparr>scanState := \<lparr>loading = True, success = False, message = None, noteLines = None\<rparr>,
     inflight := inflight s @ [(config s, m)]\<rparr>"

definition scan_failed :: "string \<Rightarrow> scan_state" where
  "scan_failed e = \<lparr>loading = False, success = False, message = Some e, noteLines = None\<rparr>"

fun triggerScan_finish :: "scan_reply \<Rightarrow> dash \<Rightarrow> dash" where
  "triggerScan_finish (NetworkError e) s = s\<lparr>scanState := scan_failed e\<rparr>"
| "triggerScan_finish (HttpReply r) s =
     (case resp_body r of
        ApiError e \<Rightarrow> s\<lparr>scanState := scan_failed e\<rparr>
      | ScanOk rep notif n \<Rightarrow>
          s\<lparr>reports := take 6 (rep # reports s),
            scanState := \<lparr>loading = False, success = True,
              message = Some (''Scan completed from '' @ nat_str n @ '' sources.''),
              noteLines = Some [email_line (outcome_json (emailOutcome notif)),
                            whatsapp_line (outcome_json (whatsappOutcome notif))]\<rparr>\<rparr>)"

text \<open>\<open>keywordHighlights\<close> (lines 278--284): the latest report's hits, by count
  descending (\<open>Array.prototype.sort\<close> is stable), the first five.\<close>

definition keywordHighlights :: "risk_report list \<Rightarrow> (string \<times> nat) list" where
  "keywordHighlights rs =
     (case rs of [] \<Rightarrow> [] | latest # _ \<Rightarrow> take 5 (sort_key (\<lambda>(k, c). - int c) (keywordHits latest)))"

subsection \<open>Draft inputs and their Add buttons (lines 326--455)\<close>

fun draft_of :: "list_field \<Rightarrow> draft \<Rightarrow> string" where
  "draft_of SourcesField dr = draftSource dr"
| "draft_of KeywordsField dr = draftKeyword dr"
| "draft_of EmailsField dr = draftEmail dr"
| "draft_of WhatsappField dr = draftWhatsapp dr"

fun set_draft :: "list_field \<Rightarrow> string \<Rightarrow> draft \<Rightarrow> draft" where
  "set_draft SourcesField v dr = dr\<lparr>draftSource := v\<rparr>"
| "set_draft KeywordsField v dr = dr\<lparr>draftKeyword := v\<rparr>"
| "set_draft EmailsField v dr = dr\<lparr>draftEmail := v\<rparr>"
| "set_draft WhatsappField v dr = dr\<lparr>draftWhatsapp := v\<rparr>"

text \<open>The e-mail button lower-cases the draft before adding it (line 407).\<close>

fun add_value :: "list_field \<Rightarrow> string \<Rightarrow> string" where
  "add_value EmailsField v = js_lower v"
| "add_value _ v = v"

definition click_add :: "list_field \<Rightarrow> dash \<Rightarrow> dash" where
  "click_add f s =
     (let v = draft_of f (draft s)
      in if v = [] then s
         else s\<lparr>config := handleAdd f (add_value f v) (config s),
                draft := set_draft f [] (draft s)\<rparr>)"

subsection \<open>Events\<close>

datatype dash_event =
    Mount
  | HistoryLoaded "risk_report list option"
  | EditIndustry string
  | EditDraft list_field string
  | ClickAdd list_field
  | ClickRemove list_field string
  | ToggleRealtime bool
  | ToggleDaily bool
  | ToggleWeekly bool
  | ClickSave
  | ClickScan trigger_mode
  | ScanReply nat scan_reply

text \<open>\<open>HistoryLoaded (Some rs)\<close> is a reply \<open>{ok: true, reports: rs}\<close> of
  \<open>/api/reports?limit=6\<close>, \<open>None\<close> a failed or not-ok reply (lines 194--201).
  \<open>ScanReply i r\<close> completes the \<open>i\<close>-th in-flight scan; an index past the
  list is no reply at all.\<close>

fun dash_step :: "agent_config \<Rightarrow> dash \<Rightarrow> dash_event \<Rightarrow> dash" where
  "dash_step d s Mount = s\<lparr>config := hydrate d (storage s) (config s)\<rparr>"
| "dash_step d s (HistoryLoaded r) =
     (case r of None \<Rightarrow> s | Some rs \<Rightarrow> s\<lparr>reports := rs\<rparr>)"
| "dash_step d s (EditIndustry v) = s\<lparr>config := (config s)\<lparr>industry := v\<rparr>\<rparr>"
| "dash_step d s (EditDraft f v) = s\<lparr>draft := set_draft f v (draft s)\<rparr>"
| "dash_step d s (ClickAdd f) = click_add f s"
| "dash_step d s (ClickRemove f v) = s\<lparr>config := handleRemove f v (config s)\<rparr>"
| "dash_step d s (ToggleRealtime b) = s\<lparr>config := (config s)\<lparr>enableRealtimeAlerts := b\<rparr>\<rparr>"
| "dash_step d s (ToggleDaily b) = s\<lparr>config := (config s)\<lparr>enableDailyDigest := b\<rparr>\<rparr>"
| "dash_step d s (ToggleWeekly b) = s\<lparr>config := (config s)\<lparr>enableWeeklyDigest := b\<rparr>\<rparr>"
| "dash_step d s ClickSave = persistConfig s"
| "dash_step d s (ClickScan m) = (if loading (scanState s) then s else triggerScan_start m s)"
| "dash_step d s (ScanReply i r) =
     (if i < length (inflight s)
      then triggerScan_finish r (s\<lparr>inflight := take i (inflight s) @ drop (Suc i) (inflight s)\<rparr>)
      else s)"

definition dash_run :: "agent_config \<Rightarrow> dash \<Rightarrow> dash_event list \<Rightarrow> dash" where
  "dash_run d s es = foldl (dash_step d) s es"

inductive dash_reachable :: "agent_config \<Rightarrow> stored_value option \<Rightarrow> dash \<Rightarrow> bool"
  for d :: agent_config and st :: "stored_value option" where
  init: "dash_reachable d st (init_dash d st)"
| step: "dash_reachable d st s \<Longrightarrow> dash_reachable d st (dash_step d s e)"

subsection \<open>Invariants and readings\<close>

text \<open>A list field as \<open>sortUnique\<close> leaves it: distinct, trimmed, no empty entry;
  the e-mail list also lower-cased, so that it is duplicate-free case-insensitively.
  \<open>stored_wf\<close> asks the same of the lists of a stored configuration.
  \<open>history_ok\<close> is the contract of \<open>loadReports(limit)\<close> for the page's
  \<open>limit=6\<close>; \<open>one_flight\<close> says at most one scan is in flight and the
  buttons are disabled exactly while one is.  \<open>outcome_line\<close> reads an outcome
  as the tagged variant of the specification (\<open>Sent | Skipped | Failed\<close>).\<close>

definition list_wf :: "string list \<Rightarrow> bool" where
  "list_wf xs \<longleftrightarrow> distinct xs \<and> list_all (\<lambda>x. x \<noteq> [] \<and> js_trim x = x) xs"

definition lists_wf :: "agent_config \<Rightarrow> bool" where
  "lists_wf c \<longleftrightarrow> list_wf (sources c) \<and> list_wf (keywordList c) \<and> list_wf (emails c) \<and>
     list_wf (whatsappNumbers c) \<and> list_all (\<lambda>e. js_lower e = e) (emails c)"

fun stored_wf :: "stored_value option \<Rightarrow> bool" where
  "stored_wf (Some (StoredConfig p)) \<longleftrightarrow>
     case_option True list_wf (p_sources p) \<and> case_option True list_wf (p_keywords p) \<and>
     case_option True (\<lambda>xs. list_wf xs \<and> list_all (\<lambda>e. js_lower e = e) xs) (p_emails p) \<and>
     case_option True list_wf (p_whatsappNumbers p)"
| "stored_wf _ \<longleftrightarrow> True"

fun history_ok :: "dash_event \<Rightarrow> bool" where
  "history_ok (HistoryLoaded (Some rs)) \<longleftrightarrow> length rs \<le> 6"
| "history_ok _ \<longleftrightarrow> True"

definition one_flight :: "dash \<Rightarrow> bool" where
  "one_flight s \<longleftrightarrow> length (inflight s) \<le> 1 \<and> (loading (scanState s) \<longleftrightarrow> inflight s \<noteq> [])"

fun outcome_line :: "string \<Rightarrow> string \<Rightarrow> outcome \<Rightarrow> string" where
  "outcome_line ok label Sent = ok"
| "outcome_line ok label Skipped = label @ '' skipped''"
| "outcome_line ok label (Failed e) = label @ (if e = [] then '' skipped'' else '' error: '' @ e)"

subsection \<open>Rendering\<close>

datatype badge = RoseBadge | AmberBadge | SkyBadge

definition risk_badge :: "risk_level \<Rightarrow> badge" where
  "risk_badge l = (if l = High then RoseBadge else if l = Medium then AmberBadge else SkyBadge)"

record insight_view =
  iv_key :: string
  iv_title :: string
  iv_href :: url
  iv_source :: string
  iv_level :: string
  iv_badge :: badge
  iv_summary :: string
  iv_quotes :: "string list option"
  iv_categories :: "string list"

definition insight_card :: "insight \<Rightarrow> insight_view" where
  "insight_card i =
     \<lparr>iv_key = insightId i, iv_title = title (article i), iv_href = url (article i), iv_source = source (article i),
      iv_level = risk_level_str (riskLevel i), iv_badge = risk_badge (riskLevel i),
      iv_summary = impactSummary i,
      iv_quotes = (if keyQuotes i \<noteq> [] then Some (keyQuotes i) else None),
      iv_categories = categories i\<rparr>"

record card_view =
  cv_mode :: string
  cv_generatedAt :: timestamp
  cv_heading :: string
  cv_overview :: string
  cv_themes :: "string list"
  cv_signals :: "insight_view list"
  cv_moves :: "string list"

text \<open>The heading \<open>{industry} \<mdash> {severity} risk posture\<close>; the dash is the
  UTF-8 bytes of U+2014.  \<open>generatedAt\<close> is shown through \<open>toLocaleString\<close>, which
  is not modelled: the card holds the timestamp itself.  Each list of the card is
  rendered with its elements as React keys (themes, \<open>insight.id\<close>, quotes,
  categories, recommendations).\<close>

definition ReportCard :: "risk_report \<Rightarrow> card_view" where
  "ReportCard r =
     \<lparr>cv_mode = trigger_mode_str (triggerMode r), cv_generatedAt = generatedAt r,
      cv_heading = reportIndustry r @ '' '' @ [CHR 0xE2, CHR 0x80, CHR 0x94] @ '' '' @
                   severity_str (severity r) @ '' risk posture'',
      cv_overview = overview r, cv_themes = dominantThemes r,
      cv_signals = map insight_card (insights r), cv_moves = recommendations r\<rparr>"

datatype tag_list_view = NoneConfigured | Tags "string list"

definition ConfigTagList :: "string list \<Rightarrow> tag_list_view" where
  "ConfigTagList items = (if items = [] then NoneConfigured else Tags items)"

subsection \<open>Sample data for the witnesses\<close>

abbreviation sample_report :: risk_report where
  "sample_report \<equiv> \<lparr>triggerMode = Manual, generatedAt = 0, reportIndustry = ''Automobile'',
     severity = NoSignificantRisk, overview = [], dominantThemes = [], insights = [],
     recommendations = [], keywordHits = [(''tariff'', 2), (''ban'', 0), (''recall'', 3),
       (''strike'', 1), (''tax'', 2), (''chip'', 5)]\<rparr>"

abbreviation sample_notif :: notification_result where
  "sample_notif \<equiv> \<lparr>emailOutcome = Failed [], whatsappOutcome = Sent\<rparr>"

subsection \<open>Lemmas\<close>

lemma list_wf_sortUnique [simp]: "list_wf (sortUnique xs)"
  by (auto simp: list_wf_def sortUnique_def list_all_iff)

lemma sortUnique_id: "list_wf xs \<Longrightarrow> sortUnique xs = xs"
proof -
  assume "list_wf xs"
  then have "map js_trim xs = xs" and "filter (\<lambda>s. s \<noteq> []) xs = xs" and "distinct xs"
    by (auto simp: list_wf_def list_all_iff intro: map_idI)
  then show ?thesis by (simp add: sortUnique_def js_set_list_distinct_id)
qed

lemma sortUnique_snoc:
  "list_wf xs \<Longrightarrow> sortUnique (xs @ [v]) =
     (if js_trim v = [] \<or> js_trim v \<in> set xs then xs else xs @ [js_trim v])"
proof -
  assume wf: "list_wf xs"
  then have "map js_trim xs = xs" and "filter (\<lambda>s. s \<noteq> []) xs = xs" and "distinct xs"
    by (auto simp: list_wf_def list_all_iff intro: map_idI)
  then show ?thesis
    by (auto simp: sortUnique_def js_set_list_distinct_id js_set_add_def)
qed

lemma set_sortUnique: "set (sortUnique xs) = js_trim ` set xs - {[]}"
  by (auto simp: sortUnique_def)

lemma get_list_set_list [simp]: "get_list f (set_list f xs c) = xs"
  by (cases f) simp_all

lemma get_list_set_list_other [simp]: "g \<noteq> f \<Longrightarrow> get_list g (set_list f xs c) = get_list g c"
  by (cases f; cases g) simp_all

lemma set_list_scalars [simp]:
  "industry (set_list f xs c) = industry c"
  "enableDailyDigest (set_list f xs c) = enableDailyDigest c"
  "enableWeeklyDigest (set_list f xs c) = enableWeeklyDigest c"
  "enableRealtimeAlerts (set_list f xs c) = enableRealtimeAlerts c"
  by (cases f; simp)+

lemma all_get_list:
  "(\<forall>f. P (get_list f c)) \<longleftrightarrow> P (sources c) \<and> P (keywordList c) \<and> P (emails c) \<and> P (whatsappNumbers c)"
proof
  assume "\<forall>f. P (get_list f c)"
  then show "P (sources c) \<and> P (keywordList c) \<and> P (emails c) \<and> P (whatsappNumbers c)"
    by (metis get_list.simps)
next
  assume all: "P (sources c) \<and> P (keywordList c) \<and> P (emails c) \<and> P (whatsappNumbers c)"
  show "\<forall>f. P (get_list f c)"
  proof
    fix f
    from all show "P (get_list f c)" by (cases f) simp_all
  qed
qed

lemma lists_wf_iff:
  "lists_wf c \<longleftrightarrow> (\<forall>f. list_wf (get_list f c)) \<and> list_all (\<lambda>e. js_lower e = e) (emails c)"
  by (simp add: lists_wf_def all_get_list)

lemma set_js_trim_subset: "set (js_trim s) \<subseteq> set s"
  by (auto simp: js_trim_def dest!: set_dropWhileD)

lemma js_lower_js_trim:
  "js_lower s = s \<Longrightarrow> js_lower (js_trim s) = js_trim s"
proof -
  assume "js_lower s = s"
  then have "\<forall>c\<in>set s. js_lower_char c = c"
    by (metis js_lower_def map_eq_conv list.map_id0 id_apply)
  moreover have "set (js_trim s) \<subseteq> set s"
    by (rule set_js_trim_subset)
  ultimately show ?thesis by (auto simp: js_lower_def intro: map_idI)
qed

lemma lower_sortUnique:
  "list_all (\<lambda>e. js_lower e = e) xs \<Longrightarrow> list_all (\<lambda>e. js_lower e = e) (sortUnique xs)"
  by (auto simp: list_all_iff set_sortUnique intro: js_lower_js_trim)

lemma list_wf_filter: "list_wf xs \<Longrightarrow> list_wf (filter P xs)"
  by (auto simp: list_wf_def list_all_iff)

lemma triggerScan_finish_frame [simp]:
  "config (triggerScan_finish r s) = config s"
  "storage (triggerScan_finish r s) = storage s"
  "inflight (triggerScan_finish r s) = inflight s"
  "loading (scanState (triggerScan_finish r s)) = False"
  by (cases r; auto simp: scan_failed_def split: response_body.splits)+

lemma click_add_lists_wf: "lists_wf (config s) \<Longrightarrow> lists_wf (config (click_add f s))"
  by (cases f) (auto simp: click_add_def handleAdd_def lists_wf_def Let_def intro: lower_sortUnique)

lemma handleRemove_lists_wf: "lists_wf c \<Longrightarrow> lists_wf (handleRemove f v c)"
  by (cases f) (auto simp: handleRemove_def lists_wf_def list_wf_filter list_all_iff)

lemma hydrate_lists_wf:
  assumes "lists_wf d" "lists_wf c" "stored_wf st"
  shows "lists_wf (hydrate d st c)"
proof (cases st)
  case None
  with assms show ?thesis by simp
next
  case (Some v)
  with assms show ?thesis
    by (cases v) (auto simp: merge_stored_def lists_wf_def split: option.splits)
qed

lemma lists_wf_scalar_updates [simp]:
  "lists_wf (c\<lparr>industry := v\<rparr>) = lists_wf c"
  "lists_wf (c\<lparr>enableRealtimeAlerts := b\<rparr>) = lists_wf c"
  "lists_wf (c\<lparr>enableDailyDigest := b\<rparr>) = lists_wf c"
  "lists_wf (c\<lparr>enableWeeklyDigest := b\<rparr>) = lists_wf c"
  by (simp_all add: lists_wf_def)

lemma reports_triggerScan_finish:
  "length (reports s) \<le> 6 \<Longrightarrow> length (reports (triggerScan_finish r s)) \<le> 6"
  by (cases r) (auto split: response_body.splits)

lemma click_add_frame [simp]:
  "storage (click_add f s) = storage s"
  "scanState (click_add f s) = scanState s"
  "inflight (click_add f s) = inflight s"
  "reports (click_add f s) = reports s"
  by (simp_all add: click_add_def Let_def)

lemma persistConfig_frame [simp]:
  "config (persistConfig s) = config s"
  "inflight (persistConfig s) = inflight s"
  "reports (persistConfig s) = reports s"
  "loading (scanState (persistConfig s)) = False"
  by (simp_all add: persistConfig_def)

lemma persistConfig_stored_wf: "lists_wf (config s) \<Longrightarrow> stored_wf (storage (persistConfig s))"
  by (simp add: persistConfig_def stored_of_def lists_wf_def)

lemma dash_step_wf:
  assumes "lists_wf d" "lists_wf (config s)" "stored_wf (storage s)"
  shows "lists_wf (config (dash_step d s e)) \<and> stored_wf (storage (dash_step d s e))"
  using assms
  by (cases e) (auto simp: click_add_lists_wf handleRemove_lists_wf hydrate_lists_wf
      persistConfig_stored_wf triggerScan_start_def split: option.splits)

lemma dash_reachable_wf:
  "dash_reachable d st s \<Longrightarrow> lists_wf d \<Longrightarrow> stored_wf st \<Longrightarrow>
   lists_wf (config s) \<and> stored_wf (storage s)"
  by (induction rule: dash_reachable.induct) (auto simp: init_dash_def dest: dash_step_wf)

lemma dash_step_loading:
  "(loading (scanState s) \<Longrightarrow> inflight s \<noteq> []) \<Longrightarrow>
   loading (scanState (dash_step d s e)) \<Longrightarrow> inflight (dash_step d s e) \<noteq> []"
  by (cases e) (auto simp: triggerScan_start_def split: option.splits)

lemma dash_reachable_loading:
  "dash_reachable d st s \<Longrightarrow> loading (scanState s) \<Longrightarrow> inflight s \<noteq> []"
proof (induction rule: dash_reachable.induct)
  case init
  then show ?case by (simp add: init_dash_def blankState_def)
next
  case (step s e)
  then show ?case by (metis dash_step_loading)
qed

lemma dash_run_snoc [simp]: "dash_run d s (es @ [e]) = dash_step d (dash_run d s es) e"
  by (simp add: dash_run_def)

lemma dash_run_Nil [simp]: "dash_run d s [] = s"
  by (simp add: dash_run_def)

lemma one_flight_step: "one_flight s \<Longrightarrow> e \<noteq> ClickSave \<Longrightarrow> one_flight (dash_step d s e)"
  by (cases e) (auto simp: one_flight_def triggerScan_start_def min_def split: option.splits)

lemma no_save_one_flight:
  "ClickSave \<notin> set es \<Longrightarrow> one_flight (dash_run d (init_dash d st) es)"
proof (induction es rule: rev_induct)
  case Nil
  then show ?case by (simp add: one_flight_def init_dash_def blankState_def)
next
  case (snoc e es)
  from snoc.prems have "e \<noteq> ClickSave" and "ClickSave \<notin> set es" by auto
  with snoc.IH show ?case by (simp add: one_flight_step)
qed

lemma reports_bound:
  "list_all history_ok es \<Longrightarrow> length (reports (dash_run d (init_dash d st) es)) \<le> 6"
proof (induction es rule: rev_induct)
  case Nil
  then show ?case by (simp add: init_dash_def)
next
  case (snoc e es)
  then show ?case
    by (cases e) (auto simp: triggerScan_start_def reports_triggerScan_finish split: option.splits)
qed

lemma email_line_outcome:
  "email_line (outcome_json oc) = outcome_line ''Email dispatch succeeded'' ''Email'' oc"
  by (cases oc) (simp_all add: email_line_def)

lemma whatsapp_line_outcome:
  "whatsapp_line (outcome_json oc) = outcome_line ''WhatsApp alerts delivered'' ''WhatsApp'' oc"
  by (cases oc) (simp_all add: whatsapp_line_def)

lemma scan_ok_state:
  "resp_body resp = ScanOk rep notif n \<Longrightarrow>
   triggerScan_finish (HttpReply resp) s =
     s\<lparr>reports := take 6 (rep # reports s),
       scanState := \<lparr>loading = False, success = True,
         message = Some (''Scan completed from '' @ nat_str n @ '' sources.''),
         noteLines = Some [outcome_line ''Email dispatch succeeded'' ''Email'' (emailOutcome notif),
                       outcome_line ''WhatsApp alerts delivered'' ''WhatsApp'' (whatsappOutcome notif)]\<rparr>\<rparr>"
  by (simp add: email_line_outcome whatsapp_line_outcome)

lemma keywordHighlights_top:
  assumes "keywordHighlights (r # rs) = hs"
  shows "length hs \<le> 5 \<and> sorted_wrt (\<lambda>a b. snd b \<le> snd a) hs \<and>
         mset hs \<subseteq># mset (keywordHits r) \<and>
         (\<forall>a \<in> set hs. \<forall>b \<in># mset (keywordHits r) - mset hs. snd b \<le> snd a)"
proof -
  let ?f = "\<lambda>(k::string, c::nat). - int c"
  let ?ys = "sort_key ?f (keywordHits r)"
  have hs: "hs = take 5 ?ys" using assms by (simp add: keywordHighlights_def)
  have sorted: "sorted (map ?f ?ys)" by (rule sorted_sort_key)
  have split: "mset (keywordHits r) = mset hs + mset (drop 5 ?ys)"
    by (metis hs append_take_drop_id mset_append mset_sort)
  have "sorted_wrt (\<lambda>a b. ?f a \<le> ?f b) hs"
    using sorted by (simp add: hs sorted_map)
  then have "sorted_wrt (\<lambda>a b. snd b \<le> snd a) hs"
    by (rule sorted_wrt_mono_rel[rotated]) auto
  moreover have "\<forall>a \<in> set hs. \<forall>b \<in># mset (keywordHits r) - mset hs. snd b \<le> snd a"
  proof (intro ballI)
    fix a b assume a: "a \<in> set hs" and "b \<in># mset (keywordHits r) - mset hs"
    then have b: "b \<in> set (drop 5 ?ys)" using split by simp
    from sorted have "sorted (map ?f (hs @ drop 5 ?ys))" by (simp add: hs)
    from sorted_append_le[OF this a b] show "snd b \<le> snd a" by (auto split: prod.splits)
  qed
  ultimately show ?thesis using split by (simp add: hs)
qed

lemma draft_of_set_draft [simp]: "draft_of f (set_draft f v dr) = v"
  by (cases f) simp_all

lemma click_add_effect:
  assumes "list_wf (get_list f (config s))" and "draft_of f (draft s) = v" and "v \<noteq> []"
  shows "get_list f (config (click_add f s)) =
           (let w = js_trim (add_value f v); xs = get_list f (config s)
            in if w = [] \<or> w \<in> set xs then xs else xs @ [w])
       \<and> draft_of f (draft (click_add f s)) = []
       \<and> (\<forall>g. g \<noteq> f \<longrightarrow> get_list g (config (click_add f s)) = get_list g (config s))"
  using assms by (auto simp: click_add_def handleAdd_def sortUnique_snoc Let_def simp del: set_list.simps)

lemma reload_restores_config:
  "config (dash_step d (init_dash d (storage (dash_step d s ClickSave))) Mount) = config s"
  by (simp add: persistConfig_def init_dash_def merge_stored_def stored_of_def)

lemma overlapping_scans:
  "length (inflight (dash_run d (init_dash d st) [ClickScan m, ClickSave, ClickScan m'])) = 2
   \<and> \<not> loading (scanState (dash_run d (init_dash d st) [ClickScan m, ClickSave]))"
  by (simp add: dash_run_def init_dash_def blankState_def triggerScan_start_def persistConfig_def)

lemma history_load_drops_scan:
  "reports (dash_run d (init_dash d st) [Mount, ClickScan m, ScanReply 0 (HttpReply (ok_response r))])
     = [report r]
   \<and> reports (dash_run d (init_dash d st)
       [Mount, ClickScan m, ScanReply 0 (HttpReply (ok_response r)), HistoryLoaded (Some [])]) = []"
  by (simp add: dash_run_def init_dash_def blankState_def triggerScan_start_def ok_response_def)

subsection \<open>Properties of the dashboard\<close>

text \<open>C6 (invariant).  In every state the dashboard reaches, each list of the
  configuration (sources, keywords, e-mails, WhatsApp numbers) is duplicate-free,
  trimmed and without empty entries, and the e-mails are lower-case, hence distinct
  case-insensitively; provided the default configuration and the stored one are so.\<close>

theorem dashboard_config_invariant:
  assumes "dash_reachable d st s" and "lists_wf d" and "stored_wf st"
  shows "lists_wf (config s) \<and> distinct (map js_lower (emails (config s)))"
proof -
  have wf: "lists_wf (config s)" using dash_reachable_wf[OF assms] by simp
  then have "map js_lower (emails (config s)) = emails (config s)"
    by (auto simp: lists_wf_def list_all_iff intro: map_idI)
  with wf show ?thesis by (simp add: lists_wf_def list_wf_def)
qed

theorem dashboard_config_invariant_witness:
  "lists_wf (config (dash_step sample_config (dash_step sample_config (init_dash sample_config None)
      (EditDraft EmailsField '' OPS@a.test'')) (ClickAdd EmailsField))) \<and>
   distinct (map js_lower (emails (config (dash_step sample_config (dash_step sample_config
      (init_dash sample_config None) (EditDraft EmailsField '' OPS@a.test'')) (ClickAdd EmailsField)))))"
proof -
  have r: "dash_reachable sample_config None (dash_step sample_config (dash_step sample_config
      (init_dash sample_config None) (EditDraft EmailsField '' OPS@a.test'')) (ClickAdd EmailsField))"
    by (intro dash_reachable.step dash_reachable.init)
  have w: "lists_wf sample_config"
    by (simp add: lists_wf_def list_wf_def js_trim_def is_js_space_def js_lower_def js_lower_char_def)
  show ?thesis using dashboard_config_invariant[OF r w] by simp
qed

text \<open>C7 (functional).  Pressing Add with a non-empty draft appends the trimmed value
  (lower-cased for e-mails) to its list when it is new and non-empty and leaves the
  list unchanged otherwise; it clears that draft and leaves the other lists alone.\<close>

theorem click_add_inserts:
  assumes "list_wf (get_list f (config s))" and "draft_of f (draft s) = v" and "v \<noteq> []"
  shows "get_list f (config (click_add f s)) =
           (let w = js_trim (add_value f v); xs = get_list f (config s)
            in if w = [] \<or> w \<in> set xs then xs else xs @ [w])
       \<and> draft_of f (draft (click_add f s)) = []
       \<and> (\<forall>g. g \<noteq> f \<longrightarrow> get_list g (config (click_add f s)) = get_list g (config s))"
  using assms by (rule click_add_effect)

theorem click_add_inserts_witness:
  "emails (config (click_add EmailsField ((init_dash sample_config None)\<lparr>draft := empty_draft\<lparr>draftEmail := '' OPS@b.test''\<rparr>\<rparr>)))
     = [''ops@a.test'', ''ops@b.test'']"
proof -
  let ?s = "(init_dash sample_config None)\<lparr>draft := empty_draft\<lparr>draftEmail := '' OPS@b.test''\<rparr>\<rparr>"
  have wf: "list_wf (get_list EmailsField (config ?s))"
    by (simp add: init_dash_def list_wf_def js_trim_def is_js_space_def)
  have dr: "draft_of EmailsField (draft ?s) = '' OPS@b.test''" by (simp add: empty_draft_def)
  have low: "js_trim (js_lower '' OPS@b.test'') = ''ops@b.test''" by code_simp
  show ?thesis
    using click_add_inserts[OF wf dr] by (simp add: low init_dash_def Let_def)
qed

text \<open>C8 (round trip).  Saving the configuration and mounting a fresh page on the saved
  storage restores exactly the saved configuration.\<close>

theorem save_reload_roundtrip:
  "config (dash_step d (init_dash d (storage (dash_step d s ClickSave))) Mount) = config s"
  by (rule reload_restores_config)

text \<open>C9 (invariant).  Whenever the scan buttons are disabled (\<open>scanState.loading\<close>),
  a scan request is in flight.\<close>

theorem loading_implies_inflight:
  "dash_reachable d st s \<Longrightarrow> loading (scanState s) \<Longrightarrow> inflight s \<noteq> []"
  by (rule dash_reachable_loading)

theorem loading_implies_inflight_witness:
  "inflight (dash_step sample_config (init_dash sample_config None) (ClickScan Weekly)) \<noteq> []"
proof -
  have r: "dash_reachable sample_config None (dash_step sample_config (init_dash sample_config None) (ClickScan Weekly))"
    by (intro dash_reachable.step dash_reachable.init)
  have l: "loading (scanState (dash_step sample_config (init_dash sample_config None) (ClickScan Weekly)))"
    by (simp add: init_dash_def blankState_def triggerScan_start_def)
  show ?thesis by (rule loading_implies_inflight[OF r l])
qed

text \<open>C10 (safety).  In any session without a Save click, at most one scan is in flight
  and the buttons are disabled exactly while one is.\<close>

theorem single_scan_without_save:
  "ClickSave \<notin> set es \<Longrightarrow>
   length (inflight (dash_run d (init_dash d st) es)) \<le> 1 \<and>
   (loading (scanState (dash_run d (init_dash d st) es)) \<longleftrightarrow> inflight (dash_run d (init_dash d st) es) \<noteq> [])"
  using no_save_one_flight by (simp add: one_flight_def)

theorem single_scan_without_save_witness:
  "length (inflight (dash_run sample_config (init_dash sample_config None) [ClickScan Manual, ClickScan Daily])) \<le> 1"
  using single_scan_without_save[of "[ClickScan Manual, ClickScan Daily]" sample_config None] by simp

text \<open>C11 (safety).  Saving the configuration during a scan clears
  \<open>scanState.loading\<close>, re-enables the scan buttons, and lets a second scan start
  while the first is still in flight.\<close>

theorem overlapping_scans_after_save:
  "length (inflight (dash_run d (init_dash d st) [ClickScan m, ClickSave, ClickScan m'])) = 2
   \<and> \<not> loading (scanState (dash_run d (init_dash d st) [ClickScan m, ClickSave]))"
  by (rule overlapping_scans)

text \<open>C12 (functional).  A successful scan reply puts its report first in the list, keeps
  at most six, and shows one line per channel: sent, skipped, or the error; a failure
  whose error message is empty is shown as skipped.\<close>

theorem scan_success_updates_state:
  assumes "resp_body resp = ScanOk rep notif n"
  shows "reports (triggerScan_finish (HttpReply resp) s) = take 6 (rep # reports s)
    \<and> scanState (triggerScan_finish (HttpReply resp) s) =
        \<lparr>loading = False, success = True,
         message = Some (''Scan completed from '' @ nat_str n @ '' sources.''),
         noteLines = Some [outcome_line ''Email dispatch succeeded'' ''Email'' (emailOutcome notif),
                       outcome_line ''WhatsApp alerts delivered'' ''WhatsApp'' (whatsappOutcome notif)]\<rparr>"
  using scan_ok_state[OF assms] by simp

theorem scan_success_updates_state_witness:
  "noteLines (scanState (triggerScan_finish
      (HttpReply \<lparr>status = 200, resp_body = ScanOk sample_report sample_notif 7\<rparr>)
      (init_dash sample_config None)))
     = Some [''Email skipped'', ''WhatsApp alerts delivered'']"
  using scan_success_updates_state[of "\<lparr>status = 200, resp_body = ScanOk sample_report sample_notif 7\<rparr>"
      sample_report sample_notif 7 "init_dash sample_config None"]
  by simp

text \<open>C13 (safety).  When the history request of the mount effect answers after a scan
  has completed, it replaces the list of reports, and the report of that scan is no
  longer shown.\<close>

theorem history_load_race:
  "reports (dash_run d (init_dash d st) [Mount, ClickScan m, ScanReply 0 (HttpReply (ok_response r))])
     = [report r]
   \<and> reports (dash_run d (init_dash d st)
       [Mount, ClickScan m, ScanReply 0 (HttpReply (ok_response r)), HistoryLoaded (Some [])]) = []"
  by (rule history_load_drops_scan)

text \<open>C14 (bounds).  The dashboard never holds more than six reports, provided the history
  endpoint honours its \<open>limit=6\<close>.\<close>

theorem reports_capped:
  "list_all history_ok es \<Longrightarrow> length (reports (dash_run d (init_dash d st) es)) \<le> 6"
  by (rule reports_bound)

theorem reports_capped_witness:
  "length (reports (dash_run sample_config (init_dash sample_config None)
     [HistoryLoaded (Some [sample_report, sample_report]), ClickScan Daily,
      ScanReply 0 (HttpReply \<lparr>status = 200, resp_body = ScanOk sample_report sample_notif 1\<rparr>)])) \<le> 6"
  using reports_capped[of "[HistoryLoaded (Some [sample_report, sample_report]), ClickScan Daily,
      ScanReply 0 (HttpReply \<lparr>status = 200, resp_body = ScanOk sample_report sample_notif 1\<rparr>)]"
      sample_config None]
  by simp

text \<open>C15 (functional).  The hot keywords are at most five entries of the latest report's
  hits, ordered by count descending, and no entry left out has a higher count than
  one shown.\<close>

theorem keyword_highlights_top5:
  assumes "keywordHighlights (r # rs) = hs"
  shows "length hs \<le> 5 \<and> sorted_wrt (\<lambda>a b. snd b \<le> snd a) hs \<and>
         mset hs \<subseteq># mset (keywordHits r) \<and>
         (\<forall>a \<in> set hs. \<forall>b \<in># mset (keywordHits r) - mset hs. snd b \<le> snd a)"
  using assms by (rule keywordHighlights_top)

theorem keyword_highlights_top5_witness:
  "keywordHighlights [sample_report] = [(''chip'', 5), (''recall'', 3), (''tariff'', 2), (''tax'', 2), (''strike'', 1)]
   \<and> length (keywordHighlights [sample_report]) \<le> 5"
proof -
  have e: "keywordHighlights [sample_report] = [(''chip'', 5), (''recall'', 3), (''tariff'', 2), (''tax'', 2), (''strike'', 1)]"
    by (simp add: keywordHighlights_def)
  show ?thesis using keyword_highlights_top5[OF e] e by simp
qed
lemma scan_post_cases:
  "(\<exists>r. scan_post env run b = ok_response r) \<or> (\<exists>t. scan_post env run b = error_response t)"
  by (auto simp: scan_post_def split: request_body.splits sum.splits prod.splits)

lemma scan_post_error_body:
  "status (scan_post env run b) \<noteq> 200 \<Longrightarrow> \<exists>t. scan_post env run b = error_response t"
  using scan_post_cases[of env run b] by (auto simp: ok_response_def)

text \<open>C33. Route and dashboard on the error path: when the scan request is answered
  with an error status, the reply ends that request, clears the loading flag, reports
  failure with the route's error message, and leaves the reports and the configuration
  as they were.\<close>
theorem scan_error_shown:
  assumes "inflight s \<noteq> []" and "status (scan_post env run b) \<noteq> 200"
  shows "let s' = dash_step d s (ScanReply 0 (HttpReply (scan_post env run b)))
    in reports s' = reports s \<and> config s' = config s \<and> \<not> loading (scanState s') \<and>
       \<not> success (scanState s') \<and> length (inflight s') = length (inflight s) - 1 \<and>
       (\<exists>e. message (scanState s') = Some e \<and> resp_body (scan_post env run b) = ApiError e)"
proof -
  obtain t where t: "scan_post env run b = error_response t" using scan_post_error_body[OF assms(2)] by blast
  show ?thesis using assms(1) by (simp add: t error_response_def scan_failed_def Let_def)
qed

theorem scan_error_shown_witness:
  "let s = triggerScan_start Manual (init_dash sample_config None);
       s' = dash_step sample_config s (ScanReply 0 (HttpReply (scan_post sample_env (\<lambda>_ _. Inl NonError)
              (MalformedJson ''Unexpected token''))))
   in inflight s \<noteq> [] \<and> reports s' = reports s \<and> config s' = config s \<and> \<not> loading (scanState s') \<and>
      \<not> success (scanState s') \<and> length (inflight s') = length (inflight s) - 1 \<and>
      message (scanState s') = Some ''Unexpected token''"
proof -
  let ?s = "triggerScan_start Manual (init_dash sample_config None)"
  let ?b = "MalformedJson ''Unexpected token''"
  have i: "inflight ?s \<noteq> []" by (simp add: triggerScan_start_def init_dash_def)
  have st: "status (scan_post sample_env (\<lambda>_ _. Inl NonError) ?b) \<noteq> 200"
    by (simp add: scan_post_def error_response_def)
  have b: "resp_body (scan_post sample_env (\<lambda>_ _. Inl NonError) ?b) = ApiError ''Unexpected token''"
    by (simp add: scan_post_def error_response_def)
  show ?thesis using i scan_error_shown[OF i st, of sample_config] b by (simp add: Let_def)
qed

end
