(* ===== verification/Scorer.thy ===== *)
theory Scorer
  imports Report_Types
begin

text \<open>
  The Keyword and Risk Scorer of the specification (section 4.2).  Its code lives in
  \<open>lib/agent\<close>, outside \<open>src/\<close>, so this theory models the specification's
  contract with the default policy the specification asks an implementer to choose
  and document:
  \<^item> matching is case-insensitive substring matching over the title and the body
    (\<open>contains_ci\<close>, JavaScript's \<open>includes\<close> on lower-cased text);
  \<^item> the matched keywords, deduplicated in first-match order, are the categories;
  \<^item> the risk signal counts a keyword matched in the title twice and one matched only
    in the body once, adds one for a mention of the industry and one per severity
    cue (disruption, regulation, safety, recall, shortage, sanction, strike, ban);
  \<^item> a signal of six or more is \<open>High\<close>, of two or more \<open>Medium\<close>, else \<open>Low\<close>:
    the thresholds are inclusive lower bounds, so a signal between two levels takes
    the lower one;
  \<^item> a quote is the text around the first occurrence of a matched keyword, at most
    \<open>quote_radius\<close> characters on each side, at most \<open>max_quotes\<close> of them;
  \<^item> an article with no matched keyword is not relevant (\<open>None\<close>).
\<close>

definition max_quotes :: nat where
  "max_quotes = 3"

definition quote_radius :: nat where
  "quote_radius = 40"

definition severity_cues :: "string list" where
  "severity_cues = [''disruption'', ''regulation'', ''safety'', ''recall'', ''shortage'',
     ''sanction'', ''strike'', ''ban'']"

definition contains_ci :: "string \<Rightarrow> string \<Rightarrow> bool" where
  "contains_ci hay needle = js_includes (js_lower hay) (js_lower needle)"

definition article_text :: "article \<Rightarrow> string" where
  "article_text a = title a @ '' '' @ body a"

definition matched_keywords :: "string list \<Rightarrow> article \<Rightarrow> string list" where
  "matched_keywords kws a = js_set_list (filter (contains_ci (article_text a)) kws)"

definition title_hits :: "string list \<Rightarrow> article \<Rightarrow> string list" where
  "title_hits kws a = filter (contains_ci (title a)) (matched_keywords kws a)"

definition cue_hits :: "article \<Rightarrow> string list" where
  "cue_hits a = filter (contains_ci (article_text a)) severity_cues"

definition risk_signal :: "string list \<Rightarrow> string \<Rightarrow> article \<Rightarrow> nat" where
  "risk_signal kws ind a =
     2 * length (title_hits kws a) + (length (matched_keywords kws a) - length (title_hits kws a)) +
     (if contains_ci (article_text a) ind then 1 else 0) + length (cue_hits a)"

definition risk_of_signal :: "nat \<Rightarrow> risk_level" where
  "risk_of_signal s = (if 6 \<le> s then High else if 2 \<le> s then Medium else Low)"

definition snippet :: "string \<Rightarrow> string \<Rightarrow> string" where
  "snippet text k =
     (case js_index_of (js_lower text) (js_lower k) of
        None \<Rightarrow> []
      | Some i \<Rightarrow> take (length k + 2 * quote_radius) (drop (i - quote_radius) text))"

definition key_quotes :: "string list \<Rightarrow> article \<Rightarrow> string list" where
  "key_quotes kws a =
     take max_quotes (js_set_list (filter (\<lambda>q. q \<noteq> []) (map (snippet (article_text a)) (matched_keywords kws a))))"

definition impact_summary :: "string \<Rightarrow> string list \<Rightarrow> string" where
  "impact_summary ind ms =
     ''Matched '' @ nat_str (length ms) @ '' monitored keyword(s) relevant to '' @ ind @ ''.''"

definition score_article :: "string list \<Rightarrow> string \<Rightarrow> article \<Rightarrow> insight option" where
  "score_article kws ind a =
     (let ms = matched_keywords kws a
      in if ms = [] then None
         else Some \<lparr>insightId = url a, article = a,
                    riskLevel = risk_of_signal (risk_signal kws ind a),
                    impactSummary = impact_summary ind ms,
                    keyQuotes = key_quotes kws a, categories = ms\<rparr>)"

abbreviation tariff_article :: article where
  "tariff_article \<equiv> \<lparr>title = ''New tariff on steel'', url = ''https://n.example/1'', source = ''wire'',
     publishedAt = 5, body = ''Port strike causes disruption.''\<rparr>"

abbreviation tariff_insight :: insight where
  "tariff_insight \<equiv> \<lparr>insightId = ''https://n.example/1'', article = tariff_article, riskLevel = High,
     impactSummary = ''Matched 2 monitored keyword(s) relevant to steel.'',
     keyQuotes = [''New tariff on steel Port strike causes disruption.''],
     categories = [''Tariff'', ''strike'']\<rparr>"

subsection \<open>Lemmas\<close>

lemma risk_of_signal_mono: "s \<le> t \<Longrightarrow> risk_of_signal s \<le> risk_of_signal t"
  by (simp add: risk_of_signal_def less_eq_risk_level_def)

lemma sublist_take_drop [simp]: "sublist (take n (drop m xs)) xs"
  by (metis sublist_take sublist_drop sublist_order.order.trans)

lemma snippet_sublist: "sublist (snippet text k) text"
  by (simp add: snippet_def split: option.splits)

lemma key_quotes_sublist: "q \<in> set (key_quotes kws a) \<Longrightarrow> sublist q (article_text a)"
proof -
  assume "q \<in> set (key_quotes kws a)"
  then have "q \<in> set (map (snippet (article_text a)) (matched_keywords kws a))"
    unfolding key_quotes_def by (auto dest: in_set_takeD)
  then show ?thesis by (auto simp: snippet_sublist)
qed

lemma length_key_quotes: "length (key_quotes kws a) \<le> max_quotes"
  by (simp add: key_quotes_def)

lemma distinct_key_quotes: "distinct (key_quotes kws a)"
  by (simp add: key_quotes_def distinct_take)

lemma set_matched_keywords: "set (matched_keywords kws a) = {k \<in> set kws. contains_ci (article_text a) k}"
  by (auto simp: matched_keywords_def)

lemma distinct_matched_keywords: "distinct (matched_keywords kws a)"
  by (simp add: matched_keywords_def)

lemma length_title_hits: "length (title_hits kws a) \<le> length (matched_keywords kws a)"
  by (simp add: title_hits_def)

lemma score_article_None_iff: "score_article kws ind a = None \<longleftrightarrow> matched_keywords kws a = []"
  by (simp add: score_article_def Let_def)

lemma score_article_Some:
  "score_article kws ind a = Some i \<Longrightarrow>
   article i = a \<and> insightId i = url a \<and> categories i = matched_keywords kws a \<and> categories i \<noteq> [] \<and>
   riskLevel i = risk_of_signal (risk_signal kws ind a) \<and> keyQuotes i = key_quotes kws a"
  by (auto simp: score_article_def Let_def split: if_splits)


lemma score_tariff_article:
  "score_article [''Tariff'', ''strike'', ''flood''] ''steel'' tariff_article = Some tariff_insight"
  by code_simp

subsection \<open>Properties\<close>

text \<open>C25. A scored insight is grounded in its article: every key quote is a contiguous
  substring of the article's text, there are at most \<open>max_quotes\<close> of them, the
  categories are exactly the configured keywords the article mentions (at least one,
  no repetition), and the insight is identified by the article's URL.\<close>
theorem score_article_grounded:
  assumes "score_article kws ind a = Some i"
  shows "(\<forall>q\<in>set (keyQuotes i). sublist q (article_text a)) \<and> length (keyQuotes i) \<le> max_quotes \<and>
    categories i \<noteq> [] \<and> distinct (categories i) \<and>
    set (categories i) = {k \<in> set kws. contains_ci (article_text a) k} \<and> insightId i = url a"
  using score_article_Some[OF assms] key_quotes_sublist length_key_quotes
  by (auto simp: set_matched_keywords distinct_matched_keywords)

theorem score_article_grounded_witness:
  "score_article [''Tariff'', ''strike'', ''flood''] ''steel'' tariff_article = Some tariff_insight \<and>
   list_all (\<lambda>q. sublist q (article_text tariff_article)) (keyQuotes tariff_insight) \<and>
   length (keyQuotes tariff_insight) \<le> max_quotes \<and>
   categories tariff_insight \<noteq> [] \<and> distinct (categories tariff_insight) \<and>
   set (categories tariff_insight) =
     {k \<in> set [''Tariff'', ''strike'', ''flood'']. contains_ci (article_text tariff_article) k} \<and>
   insightId tariff_insight = url tariff_article"
  unfolding list_all_iff using score_tariff_article score_article_grounded[OF score_tariff_article]
  by blast

end
