(* ===== verification/Aggregator.thy ===== *)
theory Aggregator
  imports Scorer
begin

text \<open>
  The Aggregator of the specification (section 4.3), modelled from the
  specification since \<open>lib/agent\<close> is outside \<open>src/\<close>.  It turns the insights
  of one scan and the fetched articles into a report:
  \<^item> \<open>dedupe_by_url\<close> keeps one insight per article URL, at the position of the
    URL's first occurrence, replaced by a later one only when that one is strictly
    riskier;
  \<^item> \<open>order_insights\<close> sorts by risk descending, then by \<open>publishedAt\<close>
    descending (a stable sort on the key \<open>insight_key\<close>);
  \<^item> \<open>report_severity\<close> is the highest risk level, or the neutral state for no
    insight;
  \<^item> \<open>keyword_hits\<close> counts, per configured keyword (once each, in configuration
    order, zero when unmatched), the fetched articles that mention it;
  \<^item> \<open>dominant_themes\<close> are the \<open>max_themes\<close> most frequent categories, ties
    broken alphabetically;
  \<^item> recommendations and overview are templates over severity, themes and counts:
    escalation when the severity is \<open>High\<close>, the baseline cadence otherwise (the
    specification's example), then one line for each of the two leading themes.
\<close>

fun upsert :: "insight \<Rightarrow> insight list \<Rightarrow> insight list" where
  "upsert i [] = [i]"
| "upsert i (j # js) =
     (if url (article j) = url (article i)
      then (if riskLevel j < riskLevel i then i # js else j # js)
      else j # upsert i js)"

definition dedupe_by_url :: "insight list \<Rightarrow> insight list" where
  "dedupe_by_url xs = foldl (\<lambda>acc i. upsert i acc) [] xs"

definition insight_key :: "insight \<Rightarrow> int \<times> int" where
  "insight_key i = (- int (risk_rank (riskLevel i)), - publishedAt (article i))"

definition order_insights :: "insight list \<Rightarrow> insight list" where
  "order_insights xs = sort_key insight_key xs"

definition report_severity :: "insight list \<Rightarrow> severity" where
  "report_severity xs =
     (case xs of [] \<Rightarrow> NoSignificantRisk | i # is \<Rightarrow> Severity (fold max (map riskLevel is) (riskLevel i)))"

definition keyword_hits :: "string list \<Rightarrow> article list \<Rightarrow> (string \<times> nat) list" where
  "keyword_hits kws arts =
     map (\<lambda>k. (k, length (filter (\<lambda>a. contains_ci (article_text a) k) arts))) (js_set_list kws)"

definition max_themes :: nat where
  "max_themes = 5"

definition theme_counts :: "insight list \<Rightarrow> (string \<times> nat) list" where
  "theme_counts xs =
     (let cs = concat (map categories xs) in map (\<lambda>c. (c, count_list cs c)) (js_set_list cs))"

definition dominant_themes :: "insight list \<Rightarrow> string list" where
  "dominant_themes xs =
     take max_themes (map fst (sort_key (\<lambda>(c, n). (- int n, c)) (theme_counts xs)))"

definition recommendations_for :: "severity \<Rightarrow> string list \<Rightarrow> string list" where
  "recommendations_for sev themes =
     (case sev of
        Severity High \<Rightarrow> ''Escalate monitoring cadence to real time and brief leadership.''
      | _ \<Rightarrow> ''Maintain baseline monitoring cadence.'') #
     map (\<lambda>t. ''Review exposure to '' @ t @ ''.'') (take 2 themes)"

definition overview_text :: "string \<Rightarrow> severity \<Rightarrow> nat \<Rightarrow> string list \<Rightarrow> string" where
  "overview_text ind sev n themes =
     ind @ '': '' @ severity_str sev @ '' across '' @ nat_str n @ '' articles'' @
     (case themes of [] \<Rightarrow> ''.'' | t # _ \<Rightarrow> ''; top theme: '' @ t @ ''.'')"

definition aggregate ::
  "trigger_mode \<Rightarrow> timestamp \<Rightarrow> string \<Rightarrow> string list \<Rightarrow> article list \<Rightarrow> insight list \<Rightarrow> risk_report" where
  "aggregate m now ind kws arts ins =
     (let kept = order_insights (dedupe_by_url ins);
          sev = report_severity kept;
          th = dominant_themes kept
      in \<lparr>triggerMode = m, generatedAt = now, reportIndustry = ind, severity = sev,
          overview = overview_text ind sev (length arts) th, dominantThemes = th,
          insights = kept, recommendations = recommendations_for sev th,
          keywordHits = keyword_hits kws arts\<rparr>)"

text \<open>\<open>dedupe_inv xs acc\<close>: what the fold of \<open>dedupe_by_url\<close> keeps true after
  reading \<open>xs\<close>; \<open>risk_time_order\<close> is the order the report lists insights in.\<close>

abbreviation url_of :: "insight \<Rightarrow> url" where "url_of i \<equiv> url (article i)"

definition dedupe_inv :: "insight list \<Rightarrow> insight list \<Rightarrow> bool" where
  "dedupe_inv xs acc \<longleftrightarrow> distinct (map url_of acc) \<and> set acc \<subseteq> set xs \<and>
     url_of ` set acc = url_of ` set xs \<and>
     (\<forall>i\<in>set acc. \<forall>j\<in>set xs. url_of j = url_of i \<longrightarrow> riskLevel j \<le> riskLevel i)"

definition risk_time_order :: "insight \<Rightarrow> insight \<Rightarrow> bool" where
  "risk_time_order a b \<longleftrightarrow> riskLevel b < riskLevel a \<or>
     (riskLevel b = riskLevel a \<and> publishedAt (article b) \<le> publishedAt (article a))"

abbreviation sample_article :: "url \<Rightarrow> timestamp \<Rightarrow> article" where
  "sample_article u t \<equiv> \<lparr>title = ''Port strike'', url = u, source = ''wire'', publishedAt = t, body = []\<rparr>"

abbreviation sample_insight :: "url \<Rightarrow> timestamp \<Rightarrow> risk_level \<Rightarrow> insight" where
  "sample_insight u t l \<equiv> \<lparr>insightId = u, article = sample_article u t, riskLevel = l,
     impactSummary = [], keyQuotes = [], categories = [''strike'']\<rparr>"

subsection \<open>Lemmas\<close>

lemma upsert_fresh: "url_of x \<notin> url_of ` set acc \<Longrightarrow> upsert x acc = acc @ [x]"
  by (induction acc) auto

lemma upsert_urls:
  "map url_of (upsert x acc) =
     (if url_of x \<in> url_of ` set acc then map url_of acc else map url_of acc @ [url_of x])"
  by (induction acc) auto

lemma set_upsert_subset: "set (upsert x acc) \<subseteq> insert x (set acc)"
  by (induction acc) auto

lemma upsert_cases:
  assumes "distinct (map url_of acc)" and "i \<in> set (upsert x acc)"
  shows "(i = x \<and> (\<forall>j\<in>set acc. url_of j = url_of x \<longrightarrow> riskLevel j \<le> riskLevel x)) \<or>
         (i \<in> set acc \<and> (url_of i = url_of x \<longrightarrow> riskLevel x \<le> riskLevel i))"
  using assms
proof (induction acc)
  case Nil
  then show ?case by simp
next
  case (Cons j js)
  show ?case
  proof (cases "url_of j = url_of x")
    case True
    from Cons.prems(1) True have fresh: "\<forall>y\<in>set js. url_of y \<noteq> url_of x"
      by (force simp: image_iff)
    with True Cons.prems show ?thesis by (auto split: if_splits simp: not_less)
  next
    case False
    with Cons.prems Cons.IH show ?thesis by auto
  qed
qed

lemma dedupe_inv_snoc:
  assumes "dedupe_inv xs acc"
  shows "dedupe_inv (xs @ [x]) (upsert x acc)"
proof -
  from assms have d: "distinct (map url_of acc)" by (simp add: dedupe_inv_def)
  have d': "distinct (map url_of (upsert x acc))"
    using d by (simp add: upsert_urls)
  have s: "set (upsert x acc) \<subseteq> set (xs @ [x])"
    using assms set_upsert_subset[of x acc] by (auto simp: dedupe_inv_def)
  have u: "url_of ` set (upsert x acc) = url_of ` set (xs @ [x])"
  proof -
    have "url_of ` set (upsert x acc) = set (map url_of (upsert x acc))" by simp
    also have "\<dots> = insert (url_of x) (url_of ` set acc)"
      by (auto simp: upsert_urls)
    finally show ?thesis using assms by (auto simp: dedupe_inv_def)
  qed
  have m: "\<forall>i\<in>set (upsert x acc). \<forall>j\<in>set (xs @ [x]). url_of j = url_of i \<longrightarrow> riskLevel j \<le> riskLevel i"
  proof (intro ballI impI)
    fix i j assume i: "i \<in> set (upsert x acc)" and j: "j \<in> set (xs @ [x])" and eq: "url_of j = url_of i"
    from upsert_cases[OF d i] show "riskLevel j \<le> riskLevel i"
    proof
      assume a: "i = x \<and> (\<forall>j\<in>set acc. url_of j = url_of x \<longrightarrow> riskLevel j \<le> riskLevel x)"
      show ?thesis
      proof (cases "j = x")
        case False
        with j have jx: "j \<in> set xs" by simp
        with assms obtain k where k: "k \<in> set acc" "url_of k = url_of j"
          by (auto simp: dedupe_inv_def) (metis image_iff imageI)
        from assms k jx have "riskLevel j \<le> riskLevel k" by (auto simp: dedupe_inv_def)
        moreover from a k eq have "riskLevel k \<le> riskLevel x" by auto
        ultimately show ?thesis using a by (metis order_trans)
      qed (use a in simp)
    next
      assume b: "i \<in> set acc \<and> (url_of i = url_of x \<longrightarrow> riskLevel x \<le> riskLevel i)"
      with assms j eq show ?thesis by (auto simp: dedupe_inv_def)
    qed
  qed
  from d' s u m show ?thesis by (simp add: dedupe_inv_def)
qed

lemma dedupe_inv_dedupe: "dedupe_inv xs (dedupe_by_url xs)"
proof (induction xs rule: rev_induct)
  case Nil
  then show ?case by (simp add: dedupe_inv_def dedupe_by_url_def)
next
  case (snoc x xs)
  then show ?case by (simp add: dedupe_by_url_def dedupe_inv_snoc)
qed

lemma dedupe_by_url_distinct_id: "distinct (map url_of xs) \<Longrightarrow> dedupe_by_url xs = xs"
proof (induction xs rule: rev_induct)
  case Nil
  then show ?case by (simp add: dedupe_by_url_def)
next
  case (snoc x xs)
  then have "dedupe_by_url xs = xs" and "url_of x \<notin> url_of ` set xs" by auto
  then show ?case by (simp add: dedupe_by_url_def upsert_fresh)
qed

lemma insight_key_le_iff: "insight_key a \<le> insight_key b \<longleftrightarrow> risk_time_order a b"
  by (auto simp: insight_key_def risk_time_order_def less_eq_prod_def less_risk_level_def
      risk_rank_le_iff[symmetric] less_eq_risk_level_def)

lemma order_insights_sorted: "sorted_wrt risk_time_order (order_insights xs)"
proof -
  have "sorted (map insight_key (order_insights xs))"
    by (simp add: order_insights_def sorted_sort_key)
  then show ?thesis by (simp add: sorted_map insight_key_le_iff)
qed

lemma mset_order_insights [simp]: "mset (order_insights xs) = mset xs"
  by (simp add: order_insights_def)

lemma set_order_insights [simp]: "set (order_insights xs) = set xs"
  by (metis mset_order_insights set_mset_mset)

lemma order_insights_idem: "order_insights (order_insights xs) = order_insights xs"
  by (simp add: order_insights_def sort_key_id_if_sorted sorted_sort_key)

lemma distinct_urls_perm: "mset xs = mset ys \<Longrightarrow> distinct (map url_of xs) = distinct (map url_of ys)"
  by (metis mset_map mset_eq_imp_distinct_iff)

lemma report_severity_Max:
  "report_severity xs = (if xs = [] then NoSignificantRisk else Severity (Max (riskLevel ` set xs)))"
  by (cases xs) (simp_all add: report_severity_def Max.set_eq_fold[symmetric])

lemma report_severity_set: "set xs = set ys \<Longrightarrow> report_severity xs = report_severity ys"
  by (cases "xs = []") (auto simp: report_severity_Max)

lemma keys_keyword_hits [simp]: "map fst (keyword_hits kws arts) = js_set_list kws"
  by (simp add: keyword_hits_def comp_def)

lemma length_filter_mset: "mset xs = mset ys \<Longrightarrow> length (filter P xs) = length (filter P ys)"
proof -
  assume "mset xs = mset ys"
  then have "mset (filter P xs) = mset (filter P ys)" by simp
  then have "size (mset (filter P xs)) = size (mset (filter P ys))" by (rule arg_cong)
  then show ?thesis by (simp only: size_mset)
qed

lemma keyword_hits_perm: "mset xs = mset ys \<Longrightarrow> keyword_hits kws xs = keyword_hits kws ys"
  by (simp add: keyword_hits_def length_filter_mset[of xs ys])

lemma theme_counts_keys: "map fst (theme_counts xs) = js_set_list (concat (map categories xs))"
  by (simp add: theme_counts_def Let_def comp_def)

lemma distinct_dominant_themes: "distinct (dominant_themes xs)"
proof -
  have "distinct (map fst (theme_counts xs))" by (simp add: theme_counts_keys)
  moreover have "mset (map fst (sort_key (\<lambda>(c, n). (- int n, c)) (theme_counts xs))) =
      mset (map fst (theme_counts xs))"
    by (simp only: mset_map mset_sort)
  ultimately have "distinct (map fst (sort_key (\<lambda>(c, n). (- int n, c)) (theme_counts xs)))"
    using mset_eq_imp_distinct_iff by blast
  then show ?thesis by (simp add: dominant_themes_def distinct_take)
qed

lemma set_theme_counts: "(c, n) \<in> set (theme_counts xs) \<longleftrightarrow>
   c \<in> set (concat (map categories xs)) \<and> n = count_list (concat (map categories xs)) c"
  by (auto simp: theme_counts_def Let_def)

lemma dominant_themes_top:
  assumes "t \<in> set (dominant_themes xs)" and "c \<in> set (concat (map categories xs))"
    and "c \<notin> set (dominant_themes xs)"
  shows "t \<in> set (concat (map categories xs)) \<and>
    count_list (concat (map categories xs)) c \<le> count_list (concat (map categories xs)) t"
proof -
  let ?cs = "concat (map categories xs)"
  let ?f = "\<lambda>(c::string, n::nat). (- int n, c)"
  let ?ys = "sort_key ?f (theme_counts xs)"
  have th: "dominant_themes xs = map fst (take max_themes ?ys)"
    by (simp add: dominant_themes_def take_map)
  from assms(1) obtain n where tn: "(t, n) \<in> set (take max_themes ?ys)" by (auto simp: th)
  then have "(t, n) \<in> set (theme_counts xs)" by (metis in_set_takeD set_sort)
  then have t: "t \<in> set ?cs" "n = count_list ?cs t" by (simp_all add: set_theme_counts)
  have "(c, count_list ?cs c) \<in> set (theme_counts xs)" using assms(2) by (simp add: set_theme_counts)
  then have "(c, count_list ?cs c) \<in> set ?ys" by simp
  moreover have "(c, count_list ?cs c) \<notin> set (take max_themes ?ys)"
    using assms(3) by (force simp: th)
  ultimately have cd: "(c, count_list ?cs c) \<in> set (drop max_themes ?ys)"
    by (metis append_take_drop_id Un_iff set_append)
  have "sorted (map ?f (take max_themes ?ys @ drop max_themes ?ys))" by (simp add: sorted_sort_key)
  from sorted_append_le[OF this tn cd] t show ?thesis by auto
qed

lemma dominant_themes_bound: "length (dominant_themes xs) \<le> max_themes"
  by (simp add: dominant_themes_def)

lemma set_dominant_themes: "set (dominant_themes xs) \<subseteq> set (concat (map categories xs))"
proof
  fix t assume "t \<in> set (dominant_themes xs)"
  then obtain n where "(t, n) \<in> set (theme_counts xs)"
    by (auto simp: dominant_themes_def take_map dest!: in_set_takeD)
  then show "t \<in> set (concat (map categories xs))" by (simp add: set_theme_counts)
qed

lemma distinct_recommendations_for:
  "distinct themes \<Longrightarrow> distinct (recommendations_for sev themes)"
proof -
  assume d: "distinct themes"
  have "distinct (map (\<lambda>t. ''Review exposure to '' @ t @ ''.'') (take 2 themes))"
    using d by (auto simp: distinct_map distinct_take inj_on_def)
  then show ?thesis
    by (auto simp: recommendations_for_def split: severity.splits risk_level.splits)
qed

lemma mset_concat_map: "mset (concat (map f xs)) = sum_mset (image_mset (mset \<circ> f) (mset xs))"
  by (induction xs) simp_all

lemma theme_counts_perm:
  assumes "mset xs = mset ys"
  shows "mset (theme_counts xs) = mset (theme_counts ys)"
proof -
  let ?cs = "concat (map categories xs)" and ?ds = "concat (map categories ys)"
  have m: "mset ?cs = mset ?ds" using assms by (simp add: mset_concat_map)
  then have cnt: "count_list ?cs = count_list ?ds"
    by (intro ext) (metis count_mset)
  from m have "set ?cs = set ?ds" by (metis set_mset_mset)
  then have "mset (js_set_list ?cs) = mset (js_set_list ?ds)"
    by (simp add: set_eq_iff_mset_eq_distinct[symmetric])
  then show ?thesis by (simp add: theme_counts_def Let_def cnt)
qed

lemma dominant_themes_perm: "mset xs = mset ys \<Longrightarrow> dominant_themes xs = dominant_themes ys"
proof -
  assume "mset xs = mset ys"
  then have m: "mset (theme_counts xs) = mset (theme_counts ys)" by (rule theme_counts_perm)
  have "inj_on (\<lambda>(c::string, n::nat). (- int n, c)) (set (theme_counts xs))"
    by (auto simp: inj_on_def)
  from sort_key_eq_sort_key[OF m this] show ?thesis by (simp add: dominant_themes_def)
qed

lemma dedupe_by_url_Nil_iff [simp]: "dedupe_by_url xs = [] \<longleftrightarrow> xs = []"
  using dedupe_inv_dedupe[of xs] by (auto simp: dedupe_inv_def)

lemma Max_risk_dedupe:
  assumes "xs \<noteq> []"
  shows "Max (riskLevel ` set (dedupe_by_url xs)) = Max (riskLevel ` set xs)"
proof (rule antisym)
  have inv: "dedupe_inv xs (dedupe_by_url xs)" by (rule dedupe_inv_dedupe)
  then have sub: "set (dedupe_by_url xs) \<subseteq> set xs" by (simp add: dedupe_inv_def)
  have ne: "dedupe_by_url xs \<noteq> []" using assms by simp
  from sub ne show "Max (riskLevel ` set (dedupe_by_url xs)) \<le> Max (riskLevel ` set xs)"
    by (intro Max_mono) auto
  show "Max (riskLevel ` set xs) \<le> Max (riskLevel ` set (dedupe_by_url xs))"
  proof (rule Max.boundedI)
    fix l assume "l \<in> riskLevel ` set xs"
    then obtain j where j: "j \<in> set xs" "l = riskLevel j" by auto
    with inv obtain i where i: "i \<in> set (dedupe_by_url xs)" "url_of i = url_of j"
      by (auto simp: dedupe_inv_def) (metis image_iff imageI)
    with inv j have "l \<le> riskLevel i" by (auto simp: dedupe_inv_def)
    also from i have "riskLevel i \<le> Max (riskLevel ` set (dedupe_by_url xs))" by simp
    finally show "l \<le> Max (riskLevel ` set (dedupe_by_url xs))" .
  qed (use assms in simp_all)
qed

lemma report_severity_dedupe: "report_severity (dedupe_by_url xs) = report_severity xs"
  by (simp add: report_severity_Max Max_risk_dedupe)

lemma severity_aggregate:
  "severity (aggregate m now ind kws arts ins) = report_severity ins"
  by (simp add: aggregate_def Let_def report_severity_set[of "order_insights _"] report_severity_dedupe)

lemma keyword_hits_Nil: "keyword_hits kws [] = map (\<lambda>k. (k, 0)) (js_set_list kws)"
  by (simp add: keyword_hits_def)

subsection \<open>Properties\<close>

text \<open>C16. The report keeps one insight per article URL, only insights of the scan,
  every URL of the scan, and for each URL an insight at least as risky as any other
  insight of that URL.\<close>
theorem aggregate_dedupe_keeps_riskiest:
  "let r = aggregate m now ind kws arts ins
   in distinct (map url_of (insights r)) \<and> set (insights r) \<subseteq> set ins \<and>
      url_of ` set (insights r) = url_of ` set ins \<and>
      (\<forall>i\<in>set (insights r). \<forall>j\<in>set ins. url_of j = url_of i \<longrightarrow> riskLevel j \<le> riskLevel i)"
proof -
  have e: "insights (aggregate m now ind kws arts ins) = order_insights (dedupe_by_url ins)"
    by (simp add: aggregate_def Let_def)
  have d: "distinct (map url_of (order_insights (dedupe_by_url ins))) = distinct (map url_of (dedupe_by_url ins))"
    by (rule distinct_urls_perm) simp
  show ?thesis using dedupe_inv_dedupe[of ins] unfolding Let_def e d set_order_insights dedupe_inv_def .
qed

theorem aggregate_dedupe_keeps_riskiest_witness:
  "let ins = [sample_insight ''u1'' 1 Low, sample_insight ''u2'' 2 Medium, sample_insight ''u1'' 3 High];
       r = aggregate Manual 0 ''logistics'' [''strike''] [] ins
   in (distinct (map url_of (insights r)) \<and> set (insights r) \<subseteq> set ins \<and>
      url_of ` set (insights r) = url_of ` set ins \<and>
      (\<forall>i\<in>set (insights r). \<forall>j\<in>set ins. url_of j = url_of i \<longrightarrow> riskLevel j \<le> riskLevel i)) \<and>
      insights r = [sample_insight ''u1'' 3 High, sample_insight ''u2'' 2 Medium]"
  using aggregate_dedupe_keeps_riskiest[of Manual 0 "''logistics''" "[''strike'']" "[]"
      "[sample_insight ''u1'' 1 Low, sample_insight ''u2'' 2 Medium, sample_insight ''u1'' 3 High]"]
  by (simp add: aggregate_def Let_def dedupe_by_url_def order_insights_def insight_key_def)

text \<open>C17. The report lists its insights by risk, highest first, and by publication
  time, newest first, within a risk level; ordering them again changes nothing.\<close>
theorem aggregate_insights_ordered:
  "let r = aggregate m now ind kws arts ins
   in sorted_wrt risk_time_order (insights r) \<and> order_insights (insights r) = insights r"
  by (simp add: aggregate_def Let_def order_insights_sorted order_insights_idem)

text \<open>C18. The report's severity is the highest risk level of the scan's insights,
  and the neutral state when there is none; deduplication never lowers it.\<close>
theorem aggregate_severity:
  "severity (aggregate m now ind kws arts ins) =
     (if ins = [] then NoSignificantRisk else Severity (Max (riskLevel ` set ins)))"
  by (simp add: severity_aggregate report_severity_Max)

text \<open>C22. For insights with distinct URLs, the order in which insights and articles
  arrive does not change the report: severity, themes, recommendations, overview and
  keyword hits are equal, and the insights are the same multiset.\<close>
theorem aggregate_permutation_invariant:
  assumes "mset ins' = mset ins" and "mset arts' = mset arts" and "distinct (map url_of ins)"
  shows "let r = aggregate m now ind kws arts ins; r' = aggregate m now ind kws arts' ins'
         in severity r' = severity r \<and> dominantThemes r' = dominantThemes r \<and>
            recommendations r' = recommendations r \<and> overview r' = overview r \<and>
            keywordHits r' = keywordHits r \<and> mset (insights r') = mset (insights r)"
proof -
  have d': "distinct (map url_of ins')" using assms(1,3) distinct_urls_perm by blast
  have i: "dedupe_by_url ins = ins" "dedupe_by_url ins' = ins'"
    using assms(3) d' by (simp_all add: dedupe_by_url_distinct_id)
  have s: "report_severity (order_insights ins') = report_severity (order_insights ins)"
    using assms(1) by (intro report_severity_set) (metis set_mset_mset set_order_insights)
  have t: "dominant_themes (order_insights ins') = dominant_themes (order_insights ins)"
    using assms(1) by (intro dominant_themes_perm) simp
  have l: "length arts' = length arts" using assms(2) by (metis size_mset)
  show ?thesis
    using i s t l keyword_hits_perm[OF assms(2)] assms(1)
    by (simp add: aggregate_def Let_def)
qed

theorem aggregate_permutation_invariant_witness:
  "let a = sample_insight ''u1'' 1 Low; b = sample_insight ''u2'' 2 High;
       r = aggregate Manual 0 ''logistics'' [''strike''] [] [a, b];
       r' = aggregate Manual 0 ''logistics'' [''strike''] [] [b, a]
   in mset [b, a] = mset [a, b] \<and> distinct (map url_of [a, b]) \<and>
      severity r' = severity r \<and> dominantThemes r' = dominantThemes r \<and>
      recommendations r' = recommendations r \<and> overview r' = overview r \<and>
      keywordHits r' = keywordHits r \<and> mset (insights r') = mset (insights r)"
  using aggregate_permutation_invariant[of "[sample_insight ''u2'' 2 High, sample_insight ''u1'' 1 Low]"
      "[sample_insight ''u1'' 1 Low, sample_insight ''u2'' 2 High]" "[]" "[]" Manual 0 "''logistics''" "[''strike'']"]
  by (simp add: Let_def)

end
