(* ===== verification/Dispatcher.thy ===== *)
theory Dispatcher
  imports Report_Types
begin

text \<open>
  The Notification Dispatcher of the specification (section 4.4), modelled from the
  specification: the mail and messaging modules are outside \<open>src/\<close>.  A sender is
  a capability that delivers a report to a recipient list or fails with a message
  (\<open>Inl\<close>).  A channel is attempted only when the trigger mode enables it and it has
  a recipient; the dispatcher returns both outcomes and the list of channels it
  attempted, so that "skipped" is observably "not attempted".  \<open>Realtime\<close> and
  \<open>Manual\<close> enable both channels under the realtime toggle; \<open>Daily\<close> and
  \<open>Weekly\<close> enable e-mail only, under their digest toggle.  The two channels are
  computed independently (join semantics: both outcomes are returned).
\<close>

type_synonym sender = "string list \<Rightarrow> risk_report \<Rightarrow> string + unit"

definition channel_enabled :: "trigger_mode \<Rightarrow> agent_config \<Rightarrow> channel \<Rightarrow> bool" where
  "channel_enabled m c ch =
     (case m of
        Realtime \<Rightarrow> enableRealtimeAlerts c
      | Manual \<Rightarrow> enableRealtimeAlerts c
      | Daily \<Rightarrow> ch = EmailChannel \<and> enableDailyDigest c
      | Weekly \<Rightarrow> ch = EmailChannel \<and> enableWeeklyDigest c)"

fun recipients :: "channel \<Rightarrow> agent_config \<Rightarrow> string list" where
  "recipients EmailChannel c = emails c"
| "recipients WhatsAppChannel c = whatsappNumbers c"

definition dispatch_channel ::
  "sender \<Rightarrow> trigger_mode \<Rightarrow> agent_config \<Rightarrow> channel \<Rightarrow> risk_report \<Rightarrow> outcome \<times> channel list" where
  "dispatch_channel send m c ch r =
     (if channel_enabled m c ch \<and> recipients ch c \<noteq> []
      then (case send (recipients ch c) r of Inl e \<Rightarrow> Failed e | Inr _ \<Rightarrow> Sent, [ch])
      else (Skipped, []))"

definition dispatch ::
  "sender \<Rightarrow> sender \<Rightarrow> trigger_mode \<Rightarrow> agent_config \<Rightarrow> risk_report \<Rightarrow> notification_result \<times> channel list" where
  "dispatch sendEmail sendMessaging m c r =
     (let (eo, ea) = dispatch_channel sendEmail m c EmailChannel r;
          (wo, wa) = dispatch_channel sendMessaging m c WhatsAppChannel r
      in (\<lparr>emailOutcome = eo, whatsappOutcome = wo\<rparr>, ea @ wa))"

abbreviation digest_config :: agent_config where
  "digest_config \<equiv> \<lparr>sources = [''https://feed.example/rss''], keywordList = [''tariff''],
     industry = ''steel'', emails = [''ops@example.com''], whatsappNumbers = [''+15550100''],
     enableDailyDigest = False, enableWeeklyDigest = True, enableRealtimeAlerts = True\<rparr>"

abbreviation quiet_report :: risk_report where
  "quiet_report \<equiv> \<lparr>triggerMode = Daily, generatedAt = 0, reportIndustry = ''steel'',
     severity = NoSignificantRisk, overview = [], dominantThemes = [], insights = [],
     recommendations = [], keywordHits = []\<rparr>"

subsection \<open>Lemmas\<close>

lemma dispatch_fst:
  "fst (dispatch se sm m c r) =
     \<lparr>emailOutcome = fst (dispatch_channel se m c EmailChannel r),
      whatsappOutcome = fst (dispatch_channel sm m c WhatsAppChannel r)\<rparr>"
  by (simp add: dispatch_def split_def Let_def)

lemma dispatch_snd:
  "snd (dispatch se sm m c r) =
     snd (dispatch_channel se m c EmailChannel r) @ snd (dispatch_channel sm m c WhatsAppChannel r)"
  by (simp add: dispatch_def split_def Let_def)

lemma dispatch_channel_attempts:
  "snd (dispatch_channel send m c ch r) = (if channel_enabled m c ch \<and> recipients ch c \<noteq> [] then [ch] else [])"
  by (simp add: dispatch_channel_def)

lemma dispatch_channel_skipped_iff:
  "fst (dispatch_channel send m c ch r) = Skipped \<longleftrightarrow> \<not> (channel_enabled m c ch \<and> recipients ch c \<noteq> [])"
  by (auto simp: dispatch_channel_def split: sum.splits)

lemma dispatch_channel_outcome:
  "channel_enabled m c ch \<Longrightarrow> recipients ch c \<noteq> [] \<Longrightarrow>
   fst (dispatch_channel send m c ch r) = (case send (recipients ch c) r of Inl e \<Rightarrow> Failed e | Inr _ \<Rightarrow> Sent)"
  by (simp add: dispatch_channel_def)

lemma whatsapp_digest_disabled: "m = Daily \<or> m = Weekly \<Longrightarrow> \<not> channel_enabled m c WhatsAppChannel"
  by (auto simp: channel_enabled_def)

subsection \<open>Properties\<close>

text \<open>C19. The two channels are independent: the e-mail outcome does not depend on the
  messaging sender nor the WhatsApp outcome on the mail sender, so a failure of one never
  changes the other; the channels attempted are exactly the enabled ones with a
  recipient, whatever the senders return.\<close>
theorem dispatch_channels_independent:
  "emailOutcome (fst (dispatch se sm m c r)) = emailOutcome (fst (dispatch se sm' m c r)) \<and>
   whatsappOutcome (fst (dispatch se sm m c r)) = whatsappOutcome (fst (dispatch se' sm m c r)) \<and>
   snd (dispatch se sm m c r) =
     filter (\<lambda>ch. channel_enabled m c ch \<and> recipients ch c \<noteq> []) [EmailChannel, WhatsAppChannel]"
  by (simp add: dispatch_fst dispatch_snd dispatch_channel_attempts)

text \<open>C20. A daily digest with the daily toggle off, or a weekly digest with the weekly
  toggle off, attempts no channel and reports both channels as skipped.\<close>
theorem digest_disabled_skips:
  assumes "(m = Daily \<and> \<not> enableDailyDigest c) \<or> (m = Weekly \<and> \<not> enableWeeklyDigest c)"
  shows "fst (dispatch se sm m c r) = \<lparr>emailOutcome = Skipped, whatsappOutcome = Skipped\<rparr> \<and>
    snd (dispatch se sm m c r) = []"
  using assms by (auto simp: dispatch_fst dispatch_snd dispatch_channel_def channel_enabled_def)

theorem digest_disabled_skips_witness:
  "(Daily = Daily \<and> \<not> enableDailyDigest digest_config) \<and>
   fst (dispatch (\<lambda>_ _. Inr ()) (\<lambda>_ _. Inr ()) Daily digest_config quiet_report) =
     \<lparr>emailOutcome = Skipped, whatsappOutcome = Skipped\<rparr> \<and>
   snd (dispatch (\<lambda>_ _. Inr ()) (\<lambda>_ _. Inr ()) Daily digest_config quiet_report) = []"
  using digest_disabled_skips[of Daily digest_config "\<lambda>_ _. Inr ()" "\<lambda>_ _. Inr ()" quiet_report] by simp

end
