(* ===== verification/Orchestrator.thy ===== *)
theory Orchestrator
  imports Aggregator Dispatcher Scan_Route
begin

text \<open>
  The Source Fetcher and the Scan Orchestrator of the specification (sections 4.1
  and 4.5), i.e. \<open>runAgentScan\<close> of \<open>lib/agent\<close>, modelled from the
  specification.  The environment's capabilities (\<open>fetchSource\<close>, the two senders,
  the clock) are a record.  \<open>fetch_all\<close> skips a failing source and concatenates
  the articles of the others; \<open>run_scan\<close> validates the configuration first and
  only then runs fetch, score, aggregate and dispatch in sequence.  The same run is
  also a small-step machine over the stages \<open>Idle \<rightarrow> Fetching \<rightarrow> Scoring \<rightarrow>
  Aggregating \<rightarrow> Dispatching \<rightarrow> Done\<close>, each stage carrying the data computed so
  far, with \<open>Rejected\<close> for a configuration error.  \<open>agent_runner\<close> adapts
  \<open>run_scan\<close> to the runner type the route expects: a configuration error is a
  thrown \<open>Error\<close>.
\<close>

record capabilities =
  fetchSource :: "url \<Rightarrow> string + article list"
  sendEmail :: sender
  sendMessaging :: sender
  clock :: timestamp

datatype config_error = NoSources | NoKeywords

definition validate_config :: "agent_config \<Rightarrow> config_error option" where
  "validate_config c =
     (if sources c = [] then Some NoSources else if keywordList c = [] then Some NoKeywords else None)"

definition fetch_all :: "(url \<Rightarrow> string + article list) \<Rightarrow> url list \<Rightarrow> article list" where
  "fetch_all f srcs = concat (map (\<lambda>s. case f s of Inl _ \<Rightarrow> [] | Inr arts \<Rightarrow> arts) srcs)"

definition score_all :: "string list \<Rightarrow> string \<Rightarrow> article list \<Rightarrow> insight list" where
  "score_all kws ind arts = List.map_filter (score_article kws ind) arts"

definition build_result ::
  "capabilities \<Rightarrow> agent_config \<Rightarrow> trigger_mode \<Rightarrow> article list \<Rightarrow> risk_report \<Rightarrow> scan_result" where
  "build_result caps c m arts rep =
     \<lparr>report = rep, notifications = fst (dispatch (sendEmail caps) (sendMessaging caps) m c rep),
      articleCount = length arts\<rparr>"

definition run_scan :: "capabilities \<Rightarrow> agent_config \<Rightarrow> trigger_mode \<Rightarrow> config_error + scan_result" where
  "run_scan caps c m =
     (case validate_config c of
        Some e \<Rightarrow> Inl e
      | None \<Rightarrow>
          (let arts = fetch_all (fetchSource caps) (sources c);
               ins = score_all (keywordList c) (industry c) arts;
               rep = aggregate m (clock caps) (industry c) (keywordList c) arts ins
           in Inr (build_result caps c m arts rep)))"

fun config_error_str :: "config_error \<Rightarrow> string" where
  "config_error_str NoSources = ''At least one source is required.''"
| "config_error_str NoKeywords = ''At least one keyword is required.''"

definition agent_runner :: "capabilities \<Rightarrow> scan_runner" where
  "agent_runner caps c m =
     (case run_scan caps c m of Inl e \<Rightarrow> Inl (JsError (config_error_str e)) | Inr r \<Rightarrow> Inr r)"

subsection \<open>The stage machine\<close>

datatype stage = Idle | Fetching | Scoring "article list" | Aggregating "article list" "insight list"
  | Dispatching "article list" risk_report | Done scan_result | Rejected config_error

fun scan_step :: "capabilities \<Rightarrow> agent_config \<Rightarrow> trigger_mode \<Rightarrow> stage \<Rightarrow> stage" where
  "scan_step caps c m Idle = (case validate_config c of Some e \<Rightarrow> Rejected e | None \<Rightarrow> Fetching)"
| "scan_step caps c m Fetching = Scoring (fetch_all (fetchSource caps) (sources c))"
| "scan_step caps c m (Scoring arts) = Aggregating arts (score_all (keywordList c) (industry c) arts)"
| "scan_step caps c m (Aggregating arts ins) =
     Dispatching arts (aggregate m (clock caps) (industry c) (keywordList c) arts ins)"
| "scan_step caps c m (Dispatching arts rep) = Done (build_result caps c m arts rep)"
| "scan_step caps c m (Done r) = Done r"
| "scan_step caps c m (Rejected e) = Rejected e"

fun stage_rank :: "stage \<Rightarrow> nat" where
  "stage_rank Idle = 0"
| "stage_rank Fetching = 1"
| "stage_rank (Scoring _) = 2"
| "stage_rank (Aggregating _ _) = 3"
| "stage_rank (Dispatching _ _) = 4"
| "stage_rank (Done _) = 5"
| "stage_rank (Rejected _) = 5"

fun terminal :: "stage \<Rightarrow> bool" where
  "terminal (Done _) = True"
| "terminal (Rejected _) = True"
| "terminal _ = False"

definition scan_outcome :: "capabilities \<Rightarrow> agent_config \<Rightarrow> trigger_mode \<Rightarrow> stage" where
  "scan_outcome caps c m = (case run_scan caps c m of Inl e \<Rightarrow> Rejected e | Inr r \<Rightarrow> Done r)"

inductive scan_reach :: "capabilities \<Rightarrow> agent_config \<Rightarrow> trigger_mode \<Rightarrow> stage \<Rightarrow> bool"
  for caps c m where
  start: "scan_reach caps c m Idle"
| step: "scan_reach caps c m st \<Longrightarrow> scan_reach caps c m (scan_step caps c m st)"


text \<open>\<open>report_wf\<close>: the shape every report of a scan has.\<close>

definition report_wf :: "risk_report \<Rightarrow> bool" where
  "report_wf r \<longleftrightarrow>
     distinct (map url_of (insights r)) \<and> sorted_wrt risk_time_order (insights r) \<and>
     severity r = report_severity (insights r) \<and>
     length (dominantThemes r) \<le> max_themes \<and> distinct (dominantThemes r) \<and>
     set (dominantThemes r) \<subseteq> set (concat (map categories (insights r))) \<and>
     recommendations r \<noteq> [] \<and> distinct (map fst (keywordHits r)) \<and>
     list_all (\<lambda>i. insightId i = url_of i \<and> categories i \<noteq> [] \<and> length (keyQuotes i) \<le> max_quotes)
       (insights r)"

subsection \<open>Scenario data\<close>

abbreviation tariff_config :: agent_config where
  "tariff_config \<equiv> \<lparr>sources = [''https://n.example/rss'', ''https://down.example/rss''],
     keywordList = [''Tariff'', ''strike'', ''flood''], industry = ''steel'',
     emails = [''ops@example.com''], whatsappNumbers = [''+15550100''],
     enableDailyDigest = True, enableWeeklyDigest = True, enableRealtimeAlerts = True\<rparr>"

abbreviation tariff_caps :: capabilities where
  "tariff_caps \<equiv> \<lparr>fetchSource = \<lambda>s. if s = ''https://n.example/rss'' then Inr [tariff_article] else Inl ''timeout'',
     sendEmail = \<lambda>_ _. Inr (), sendMessaging = \<lambda>_ _. Inl ''rate limited'', clock = 100\<rparr>"

abbreviation offline_caps :: capabilities where
  "offline_caps \<equiv> tariff_caps\<lparr>fetchSource := \<lambda>_. Inl ''offline''\<rparr>"

subsection \<open>Lemmas\<close>

lemma validate_config_None_iff: "validate_config c = None \<longleftrightarrow> sources c \<noteq> [] \<and> keywordList c \<noteq> []"
  by (simp add: validate_config_def)

lemma run_scan_ok:
  assumes "validate_config c = None"
  shows "run_scan caps c m =
    Inr (build_result caps c m (fetch_all (fetchSource caps) (sources c))
      (aggregate m (clock caps) (industry c) (keywordList c) (fetch_all (fetchSource caps) (sources c))
         (score_all (keywordList c) (industry c) (fetch_all (fetchSource caps) (sources c)))))"
  using assms by (simp add: run_scan_def Let_def)

lemma run_scan_Inr_D:
  assumes "run_scan caps c m = Inr r"
  shows "validate_config c = None \<and>
    r = build_result caps c m (fetch_all (fetchSource caps) (sources c))
      (aggregate m (clock caps) (industry c) (keywordList c) (fetch_all (fetchSource caps) (sources c))
         (score_all (keywordList c) (industry c) (fetch_all (fetchSource caps) (sources c))))"
  using assms by (auto simp: run_scan_def Let_def split: option.splits)

lemma build_result_simps [simp]:
  "report (build_result caps c m arts rep) = rep"
  "articleCount (build_result caps c m arts rep) = length arts"
  "notifications (build_result caps c m arts rep) = fst (dispatch (sendEmail caps) (sendMessaging caps) m c rep)"
  by (simp_all add: build_result_def)

lemma aggregate_simps [simp]:
  "keywordHits (aggregate m now ind kws arts ins) = keyword_hits kws arts"
  "triggerMode (aggregate m now ind kws arts ins) = m"
  "generatedAt (aggregate m now ind kws arts ins) = now"
  "insights (aggregate m now ind kws arts ins) = order_insights (dedupe_by_url ins)"
  "dominantThemes (aggregate m now ind kws arts ins) = dominant_themes (order_insights (dedupe_by_url ins))"
  "recommendations (aggregate m now ind kws arts ins) =
     recommendations_for (report_severity (order_insights (dedupe_by_url ins))) (dominant_themes (order_insights (dedupe_by_url ins)))"
  by (simp_all add: aggregate_def Let_def)

lemma fetch_all_Cons [simp]:
  "fetch_all f (s # srcs) = (case f s of Inl _ \<Rightarrow> [] | Inr arts \<Rightarrow> arts) @ fetch_all f srcs"
  "fetch_all f [] = []"
  by (simp_all add: fetch_all_def)

lemma set_fetch_all:
  "set (fetch_all f srcs) = {a. \<exists>s\<in>set srcs. \<exists>as. f s = Inr as \<and> a \<in> set as}"
  by (induction srcs) (auto split: sum.splits)

lemma mset_fetch_all_perm: "mset srcs = mset srcs' \<Longrightarrow> mset (fetch_all f srcs) = mset (fetch_all f srcs')"
  by (simp add: fetch_all_def mset_concat_map)

lemma score_all_simps [simp]:
  "score_all kws ind [] = []"
  "score_all kws ind (a # arts) =
     (case score_article kws ind a of None \<Rightarrow> score_all kws ind arts | Some i \<Rightarrow> i # score_all kws ind arts)"
  by (simp_all add: score_all_def List.map_filter_simps split: option.splits)

lemma set_score_all: "set (score_all kws ind arts) = {i. \<exists>a\<in>set arts. score_article kws ind a = Some i}"
  by (induction arts) (auto split: option.splits)

lemma scan_step_funpow_5:
  "(scan_step caps c m ^^ 5) Idle = (case run_scan caps c m of Inl e \<Rightarrow> Rejected e | Inr r \<Rightarrow> Done r)"
  by (cases "validate_config c") (simp_all add: eval_nat_numeral run_scan_def Let_def)


lemma insights_run_scan:
  assumes "run_scan caps c m = Inr r"
  shows "distinct (map url_of (insights (report r))) \<and>
    (\<forall>i\<in>set (insights (report r)). \<exists>a. score_article (keywordList c) (industry c) a = Some i)"
proof -
  let ?ins = "score_all (keywordList c) (industry c) (fetch_all (fetchSource caps) (sources c))"
  have i: "insights (report r) = order_insights (dedupe_by_url ?ins)"
    using run_scan_Inr_D[OF assms] by simp
  have d: "distinct (map url_of (order_insights (dedupe_by_url ?ins)))"
    using dedupe_inv_dedupe[of ?ins] distinct_urls_perm[of "order_insights (dedupe_by_url ?ins)"]
    by (simp add: dedupe_inv_def)
  have "set (order_insights (dedupe_by_url ?ins)) \<subseteq> set ?ins"
    using dedupe_inv_dedupe[of ?ins] by (simp add: dedupe_inv_def)
  then show ?thesis using d by (auto simp: i set_score_all)
qed

lemma report_severity_order_dedupe: "report_severity (order_insights (dedupe_by_url xs)) = report_severity xs"
  by (metis report_severity_dedupe report_severity_set set_order_insights)

subsection \<open>Properties\<close>

lemma tariff_run:
  "case run_scan tariff_caps tariff_config Realtime of Inl _ \<Rightarrow> False | Inr r \<Rightarrow>
     severity (report r) = Severity High \<and> insights (report r) = [tariff_insight] \<and>
     keywordHits (report r) = [(''Tariff'', 1), (''strike'', 1), (''flood'', 0)] \<and>
     notifications r = \<lparr>emailOutcome = Sent, whatsappOutcome = Failed ''rate limited''\<rparr> \<and>
     articleCount r = 1"
  by code_simp


lemma fetch_all_Nil_iff: "fetch_all f srcs = [] \<longleftrightarrow> (\<forall>s\<in>set srcs. \<forall>as. f s = Inr as \<longrightarrow> as = [])"
  by (induction srcs) (auto split: sum.splits)

text \<open>C21. When every source fails, a valid scan still returns a report: no article, no
  insight, the neutral severity, a baseline recommendation, and a zero hit for every
  keyword.\<close>
theorem all_sources_fail:
  assumes "\<forall>s\<in>set (sources c). \<exists>e. fetchSource caps s = Inl e"
    and "sources c \<noteq> []" and "keywordList c \<noteq> []"
  shows "\<exists>r. run_scan caps c m = Inr r \<and> articleCount r = 0 \<and> insights (report r) = [] \<and>
    severity (report r) = NoSignificantRisk \<and> recommendations (report r) \<noteq> [] \<and>
    keywordHits (report r) = map (\<lambda>k. (k, 0)) (js_set_list (keywordList c))"
proof -
  have f: "fetch_all (fetchSource caps) (sources c) = []"
    using assms(1) by (force simp: fetch_all_Nil_iff)
  have v: "validate_config c = None" using assms(2,3) by (simp add: validate_config_None_iff)
  show ?thesis
    by (simp add: run_scan_ok[OF v] f keyword_hits_Nil severity_aggregate dedupe_by_url_def
        order_insights_def report_severity_def recommendations_for_def)
qed

theorem all_sources_fail_witness:
  "list_all (\<lambda>s. \<exists>e. fetchSource offline_caps s = Inl e) (sources tariff_config) \<and>
   (\<exists>r. run_scan offline_caps tariff_config Daily = Inr r \<and> articleCount r = 0 \<and> insights (report r) = [] \<and>
    severity (report r) = NoSignificantRisk \<and> recommendations (report r) \<noteq> [] \<and>
    keywordHits (report r) = map (\<lambda>k. (k, 0)) (js_set_list (keywordList tariff_config)))"
  using all_sources_fail[of tariff_config offline_caps Daily] by simp


lemma url_set_dedupe: "url_of ` set (dedupe_by_url xs) = url_of ` set xs"
  using dedupe_inv_dedupe[of xs] by (simp add: dedupe_inv_def)

lemma score_all_set_perm:
  "set arts = set arts' \<Longrightarrow> set (score_all kws ind arts) = set (score_all kws ind arts')"
  by (simp add: set_score_all)

text \<open>C23. The order of the sources does not matter: permuting them gives a scan with the
  same severity, keyword hits, article count and set of reported article URLs.\<close>
theorem run_scan_source_order:
  assumes "mset srcs' = mset (sources c)" and "run_scan caps c m = Inr r"
  shows "\<exists>r'. run_scan caps (c\<lparr>sources := srcs'\<rparr>) m = Inr r' \<and>
    severity (report r') = severity (report r) \<and> keywordHits (report r') = keywordHits (report r) \<and>
    articleCount r' = articleCount r \<and>
    url_of ` set (insights (report r')) = url_of ` set (insights (report r))"
proof -
  let ?f = "fetchSource caps"
  from run_scan_Inr_D[OF assms(2)] have v: "validate_config c = None"
    and r: "r = build_result caps c m (fetch_all ?f (sources c))
      (aggregate m (clock caps) (industry c) (keywordList c) (fetch_all ?f (sources c))
         (score_all (keywordList c) (industry c) (fetch_all ?f (sources c))))" by simp_all
  have v': "validate_config (c\<lparr>sources := srcs'\<rparr>) = None"
    using v assms(1) by (auto simp: validate_config_None_iff)
  have ma: "mset (fetch_all ?f srcs') = mset (fetch_all ?f (sources c))"
    using assms(1) by (rule mset_fetch_all_perm)
  then have sa: "set (fetch_all ?f srcs') = set (fetch_all ?f (sources c))" by (metis set_mset_mset)
  have si: "set (score_all (keywordList c) (industry c) (fetch_all ?f srcs')) =
      set (score_all (keywordList c) (industry c) (fetch_all ?f (sources c)))"
    using sa by (rule score_all_set_perm)
  have l: "length (fetch_all ?f srcs') = length (fetch_all ?f (sources c))" using ma by (metis size_mset)
  show ?thesis
    using si l keyword_hits_perm[OF ma]
    by (simp add: run_scan_ok[OF v'] r severity_aggregate url_set_dedupe report_severity_set[OF si])
qed

theorem run_scan_source_order_witness:
  "mset (rev (sources tariff_config)) = mset (sources tariff_config) \<and>
   (\<exists>r. run_scan tariff_caps tariff_config Realtime = Inr r \<and>
     (\<exists>r'. run_scan tariff_caps (tariff_config\<lparr>sources := rev (sources tariff_config)\<rparr>) Realtime = Inr r' \<and>
       severity (report r') = severity (report r) \<and> keywordHits (report r') = keywordHits (report r) \<and>
       articleCount r' = articleCount r \<and>
       url_of ` set (insights (report r')) = url_of ` set (insights (report r))))"
proof -
  obtain r where r: "run_scan tariff_caps tariff_config Realtime = Inr r"
    using tariff_run by (auto split: sum.splits)
  have p: "mset (rev (sources tariff_config)) = mset (sources tariff_config)" by simp
  show ?thesis using p r run_scan_source_order[OF p r] by blast
qed

lemma scan_step_terminal_fix: "terminal st \<Longrightarrow> (scan_step caps c m ^^ k) st = st"
  by (induction k) (auto elim: terminal.elims)

lemma scan_step_funpow_ge_5:
  "5 \<le> k \<Longrightarrow> (scan_step caps c m ^^ k) Idle = scan_outcome caps c m"
proof -
  assume "5 \<le> k"
  then obtain j where k: "k = j + 5" by (metis add.commute le_iff_add)
  have t: "terminal (scan_outcome caps c m)" by (simp add: scan_outcome_def split: sum.splits)
  show ?thesis
    by (simp only: k funpow_add comp_apply scan_step_funpow_5 scan_outcome_def[symmetric]
        scan_step_terminal_fix[OF t])
qed

text \<open>C24. The stage machine implements the big-step scan: five steps from \<open>Idle\<close>, and
  any number of steps after them, reach \<open>Done\<close> with the result of \<open>run_scan\<close>,
  or \<open>Rejected\<close> with its configuration error.\<close>
theorem scan_stages_refine_run_scan:
  "(scan_step caps c m ^^ (5 + k)) Idle = (case run_scan caps c m of Inl e \<Rightarrow> Rejected e | Inr r \<Rightarrow> Done r)"
  using scan_step_funpow_ge_5[of "5 + k"] by (simp add: scan_outcome_def)

lemma scan_reach_funpow: "scan_reach caps c m st \<longleftrightarrow> (\<exists>k. st = (scan_step caps c m ^^ k) Idle)"
proof
  assume "scan_reach caps c m st"
  then show "\<exists>k. st = (scan_step caps c m ^^ k) Idle"
  proof induction
    case start
    show ?case by (rule exI[of _ 0]) simp
  next
    case (step st)
    then obtain k where "st = (scan_step caps c m ^^ k) Idle" by blast
    then show ?case by (intro exI[of _ "Suc k"]) simp
  qed
next
  assume "\<exists>k. st = (scan_step caps c m ^^ k) Idle"
  then obtain k where "st = (scan_step caps c m ^^ k) Idle" by blast
  moreover have "scan_reach caps c m ((scan_step caps c m ^^ k) Idle)"
    by (induction k) (auto intro: scan_reach.intros)
  ultimately show "scan_reach caps c m st" by simp
qed

lemma scan_step_early:
  "k < 5 \<Longrightarrow> terminal ((scan_step caps c m ^^ k) Idle) \<Longrightarrow> (scan_step caps c m ^^ k) Idle = scan_outcome caps c m"
proof -
  assume "k < 5" "terminal ((scan_step caps c m ^^ k) Idle)"
  moreover have "k = 0 \<or> k = 1 \<or> k = 2 \<or> k = 3 \<or> k = 4" using \<open>k < 5\<close> by arith
  ultimately show ?thesis
    by (cases "validate_config c")
       (auto simp: eval_nat_numeral scan_outcome_def run_scan_def)
qed

text \<open>C27. Every reachable stage either is terminal and equals the outcome of
  \<open>run_scan\<close>, or is followed by a stage of strictly higher rank: the machine only
  moves forward and ends in the big-step result.\<close>
theorem scan_reach_terminal:
  assumes "scan_reach caps c m st"
  shows "(terminal st \<longrightarrow> st = (case run_scan caps c m of Inl e \<Rightarrow> Rejected e | Inr r \<Rightarrow> Done r)) \<and>
    (\<not> terminal st \<longrightarrow> stage_rank st < stage_rank (scan_step caps c m st))"
proof -
  from assms obtain k where st: "st = (scan_step caps c m ^^ k) Idle" by (auto simp: scan_reach_funpow)
  show ?thesis
  proof (cases "5 \<le> k")
    case True
    then show ?thesis using scan_step_funpow_ge_5[OF True]
      by (simp add: st scan_outcome_def split: sum.splits)
  next
    case False
    then have k: "k < 5" by simp
    show ?thesis
    proof (intro conjI impI)
      assume "terminal st"
      then show "st = (case run_scan caps c m of Inl e \<Rightarrow> Rejected e | Inr r \<Rightarrow> Done r)"
        using scan_step_early[OF k] by (simp add: st scan_outcome_def)
    next
      assume nt: "\<not> terminal st"
      then show "stage_rank st < stage_rank (scan_step caps c m st)"
        by (cases st) (auto simp: validate_config_def split: option.splits if_splits)
    qed
  qed
qed

theorem scan_reach_terminal_witness:
  "scan_reach tariff_caps tariff_config Realtime (Scoring [tariff_article]) \<and>
   \<not> terminal (Scoring [tariff_article]) \<and>
   stage_rank (Scoring [tariff_article]) < stage_rank (scan_step tariff_caps tariff_config Realtime (Scoring [tariff_article]))"
proof -
  have "Scoring [tariff_article] = (scan_step tariff_caps tariff_config Realtime ^^ 2) Idle"
    by (simp add: eval_nat_numeral validate_config_def)
  then have r: "scan_reach tariff_caps tariff_config Realtime (Scoring [tariff_article])"
    by (auto simp: scan_reach_funpow)
  have n: "\<not> terminal (Scoring [tariff_article])" by simp
  show ?thesis using r n scan_reach_terminal[OF r] by blast
qed

text \<open>C28. A source whose fetch fails contributes nothing and does not disturb the other
  sources: their articles are kept, in source order.\<close>
theorem fetch_all_drops_failed_source:
  assumes "f s = Inl e"
  shows "fetch_all f (xs @ s # ys) = fetch_all f xs @ fetch_all f ys"
  using assms by (simp add: fetch_all_def)

theorem fetch_all_drops_failed_source_witness:
  "fetchSource tariff_caps ''https://down.example/rss'' = Inl ''timeout'' \<and>
   fetch_all (fetchSource tariff_caps) ([''https://n.example/rss''] @ ''https://down.example/rss'' # []) =
     fetch_all (fetchSource tariff_caps) [''https://n.example/rss''] @ fetch_all (fetchSource tariff_caps) []"
  using fetch_all_drops_failed_source[of "fetchSource tariff_caps" "''https://down.example/rss''" "''timeout''"
      "[''https://n.example/rss'']" "[]"] by simp

text \<open>C31. Every report a scan returns is well formed: one insight per URL, ordered by
  risk and time, severity the highest risk, at most five distinct themes drawn from the
  insights' categories, a recommendation, distinct keyword keys, and each insight
  identified by its URL, with a category and at most three quotes.\<close>
theorem run_scan_report_wf:
  assumes "run_scan caps c m = Inr r"
  shows "report_wf (report r)"
proof -
  let ?ins = "score_all (keywordList c) (industry c) (fetch_all (fetchSource caps) (sources c))"
  let ?k = "order_insights (dedupe_by_url ?ins)"
  have r: "report r = aggregate m (clock caps) (industry c) (keywordList c)
      (fetch_all (fetchSource caps) (sources c)) ?ins"
    using run_scan_Inr_D[OF assms] by simp
  from insights_run_scan[OF assms] have d: "distinct (map url_of (insights (report r)))"
    and s: "\<forall>i\<in>set (insights (report r)). \<exists>a. score_article (keywordList c) (industry c) a = Some i"
    by simp_all
  have q: "list_all (\<lambda>i. insightId i = url_of i \<and> categories i \<noteq> [] \<and> length (keyQuotes i) \<le> max_quotes)
      (insights (report r))"
    unfolding list_all_iff using s by (fastforce dest: score_article_Some intro: length_key_quotes)
  have rc: "recommendations (report r) \<noteq> []" by (simp add: r recommendations_for_def)
  show ?thesis
    using d q rc dominant_themes_bound[of ?k] distinct_dominant_themes[of ?k] set_dominant_themes[of ?k]
      order_insights_sorted[of "dedupe_by_url ?ins"]
    by (simp add: report_wf_def r severity_aggregate report_severity_order_dedupe)
qed

theorem run_scan_report_wf_witness:
  "\<exists>r. run_scan tariff_caps tariff_config Realtime = Inr r \<and> report_wf (report r)"
proof -
  obtain r where r: "run_scan tariff_caps tariff_config Realtime = Inr r"
    using tariff_run by (auto split: sum.splits)
  show ?thesis using r run_scan_report_wf[OF r] by blast
qed

end
