(* ===== verification/Reports_Route.thy ===== *)
theory Reports_Route
  imports Scan_Route
begin

text \<open>
  \<open>GET /api/reports\<close> (\<open>src/webapp/src/app/api/reports/route.ts\<close>).  The handler
  reads the query parameter \<open>limit\<close> (absent: \<open>"10"\<close>), converts it with
  JavaScript's \<open>Number\<close>, passes it to \<open>loadReports\<close> of \<open>lib/googleSheets\<close>
  (a capability here: it returns reports or throws) and answers
  \<open>{ok: true, reports}\<close> or, on a throw, \<open>{ok: false, error}\<close> with status 500.

  \<open>js_Number\<close> follows the grammar of \<open>StringToNumber\<close>: white space is trimmed
  (the ASCII white space of \<open>js_trim\<close>), the empty string is 0, \<open>Infinity\<close> may
  be signed, \<open>0x\<close>, \<open>0o\<close> and \<open>0b\<close> literals are unsigned integers, a decimal
  literal is \<open>[sign] (digits [. [digits]] | . digits) [(e|E) [sign] digits]\<close>, and
  any other text is \<open>NaN\<close>.  The result is \<open>JInt n\<close> when the literal's exact
  value is an integer of magnitude at most \<open>2^53\<close> (every such integer is a double,
  so \<open>Number\<close> returns exactly it; \<open>"-0"\<close> is \<open>JInt 0\<close>, JavaScript's
  \<open>-0\<close>, equal to \<open>0\<close> under \<open>==\<close> and \<open>===\<close>).  Every other finite literal is
  \<open>JDec m e\<close>, its exact value \<open>m * 10^e\<close> with \<open>m\<close> not a multiple of 10;
  JavaScript rounds that value to the nearest double (to \<open>Infinity\<close> beyond the
  double range), a rounding this model does not compute, so two \<open>JDec\<close> values may
  denote the same JavaScript number.  No approved behaviour of the handler depends on
  that rounding: the value is passed to the store unchecked.
\<close>

datatype js_number = JInt int | JDec int int | JInfinity bool | JNaN

definition is_digit :: "char \<Rightarrow> bool" where
  "is_digit c \<longleftrightarrow> CHR ''0'' \<le> c \<and> c \<le> CHR ''9''"

definition js_digits :: "string \<Rightarrow> bool" where
  "js_digits s \<longleftrightarrow> s \<noteq> [] \<and> list_all is_digit s"

definition digits_val :: "string \<Rightarrow> int" where
  "digits_val s = foldl (\<lambda>n c. 10 * n + (int (of_char c) - 48)) 0 s"

text \<open>The value of a digit in radix 16, 8 or 2, if the character is one.\<close>

definition radix_digit :: "nat \<Rightarrow> char \<Rightarrow> int option" where
  "radix_digit b c =
     (let v = (if is_digit c then Some (of_char c - 48)
               else if CHR ''a'' \<le> c \<and> c \<le> CHR ''f'' then Some (of_char c - 87)
               else if CHR ''A'' \<le> c \<and> c \<le> CHR ''F'' then Some (of_char c - 55)
               else None)
      in case v of Some d \<Rightarrow> if d < b then Some (int d) else None | None \<Rightarrow> None)"

fun radix_val :: "nat \<Rightarrow> int \<Rightarrow> string \<Rightarrow> int option" where
  "radix_val b acc [] = Some acc"
| "radix_val b acc (c # cs) =
     (case radix_digit b c of None \<Rightarrow> None | Some d \<Rightarrow> radix_val b (int b * acc + d) cs)"

definition radix_of :: "char \<Rightarrow> nat option" where
  "radix_of c =
     (if c = CHR ''x'' \<or> c = CHR ''X'' then Some 16
      else if c = CHR ''o'' \<or> c = CHR ''O'' then Some 8
      else if c = CHR ''b'' \<or> c = CHR ''B'' then Some 2 else None)"

text \<open>\<open>mk_number neg m e\<close>: the number \<open>(-1)^neg * m * 10^e\<close> for \<open>m \<ge> 0\<close> not a
  multiple of 10 (\<open>m = 0\<close> is zero).  Since \<open>10^16 > 2^53\<close>, only \<open>e \<le> 15\<close>
  can give a safe integer.\<close>

definition mk_number :: "bool \<Rightarrow> int \<Rightarrow> int \<Rightarrow> js_number" where
  "mk_number neg m e =
     (let sg = (if neg then -1 else 1)
      in if m = 0 then JInt 0
         else if 0 \<le> e \<and> e \<le> 15 \<and> m * 10 ^ nat e \<le> 2 ^ 53 then JInt (sg * m * 10 ^ nat e)
         else JDec (sg * m) e)"

text \<open>\<open>dec_number neg ds e\<close>: the digit string \<open>ds\<close> scaled by \<open>10^e\<close>; trailing
  zeros of \<open>ds\<close> move into the exponent.\<close>

definition dec_number :: "bool \<Rightarrow> string \<Rightarrow> int \<Rightarrow> js_number" where
  "dec_number neg ds e =
     (let ds' = rev (dropWhile (\<lambda>c. c = CHR ''0'') (rev ds))
      in mk_number neg (digits_val ds') (e + int (length ds - length ds')))"

definition parse_exponent :: "string \<Rightarrow> int option" where
  "parse_exponent r =
     (if r \<noteq> [] \<and> hd r = CHR ''+'' then (if js_digits (tl r) then Some (digits_val (tl r)) else None)
      else if r \<noteq> [] \<and> hd r = CHR ''-'' then (if js_digits (tl r) then Some (- digits_val (tl r)) else None)
      else if js_digits r then Some (digits_val r) else None)"

text \<open>\<open>parse_decimal\<close> splits an unsigned decimal literal into its integer digits,
  its fraction digits and its exponent.\<close>

definition parse_decimal :: "string \<Rightarrow> (string \<times> string \<times> int) option" where
  "parse_decimal s =
     (let ip = takeWhile is_digit s; r1 = dropWhile is_digit s;
          dot = (r1 \<noteq> [] \<and> hd r1 = CHR ''.'');
          fp = (if dot then takeWhile is_digit (tl r1) else []);
          r2 = (if dot then dropWhile is_digit (tl r1) else r1)
      in if ip = [] \<and> fp = [] then None
         else if r2 = [] then Some (ip, fp, 0)
         else if hd r2 = CHR ''e'' \<or> hd r2 = CHR ''E'' then
           (case parse_exponent (tl r2) of None \<Rightarrow> None | Some x \<Rightarrow> Some (ip, fp, x))
         else None)"

definition js_Number :: "string \<Rightarrow> js_number" where
  "js_Number s =
     (let t = js_trim s
      in if t = [] then JInt 0
         else if length t \<ge> 2 \<and> hd t = CHR ''0'' \<and> radix_of (t ! 1) \<noteq> None then
           (case radix_of (t ! 1) of
              None \<Rightarrow> JNaN
            | Some b \<Rightarrow>
                (if drop 2 t = [] then JNaN
                 else case radix_val b 0 (drop 2 t) of
                        None \<Rightarrow> JNaN
                      | Some v \<Rightarrow> dec_number False (nat_str (nat v)) 0))
         else
           (let neg = (hd t = CHR ''-'');
                b = (if hd t = CHR ''-'' \<or> hd t = CHR ''+'' then tl t else t)
            in if b = ''Infinity'' then JInfinity (\<not> neg)
               else case parse_decimal b of
                      None \<Rightarrow> JNaN
                    | Some (ip, fp, x) \<Rightarrow> dec_number neg (ip @ fp) (x - int (length fp))))"

definition limit_param :: "string option \<Rightarrow> js_number" where
  "limit_param p = js_Number (case p of None \<Rightarrow> ''10'' | Some s \<Rightarrow> s)"

datatype reports_body = ReportsOk "risk_report list" | ReportsError string

record reports_response =
  r_status :: nat
  r_body :: reports_body

type_synonym report_loader = "js_number \<Rightarrow> thrown + risk_report list"

definition reports_get :: "report_loader \<Rightarrow> string option \<Rightarrow> reports_response" where
  "reports_get load p =
     (case load (limit_param p) of
        Inl t \<Rightarrow> \<lparr>r_status = 500, r_body = ReportsError (error_message t)\<rparr>
      | Inr rs \<Rightarrow> \<lparr>r_status = 200, r_body = ReportsOk rs\<rparr>)"

subsection \<open>Lemmas\<close>

lemma limit_param_6: "limit_param (Some ''6'') = JInt 6"
  by code_simp

subsection \<open>Properties\<close>

text \<open>C29. The reports route answers 200 exactly when the store returns, with the
  reports it returned, and otherwise 500 with the thrown error's message
  (\<open>"Unexpected error"\<close> for a non-\<open>Error\<close> throw).\<close>
theorem reports_get_status:
  "(r_status (reports_get load p) = 200 \<longleftrightarrow> (\<exists>rs. load (limit_param p) = Inr rs \<and> r_body (reports_get load p) = ReportsOk rs)) \<and>
   (r_status (reports_get load p) \<noteq> 200 \<longleftrightarrow>
      (\<exists>t. load (limit_param p) = Inl t \<and> r_status (reports_get load p) = 500 \<and>
           r_body (reports_get load p) = ReportsError (error_message t)))"
  by (auto simp: reports_get_def split: sum.splits)

end
