(* ===== verification/Spec2Isabelle.thy ===== *)
theory Spec2Isabelle
  imports Dashboard Orchestrator Reports_Route
begin

text \<open>
  \<^bold>\<open>A verification library for the risk-intelligence agent.\<close>

  \<^emph>\<open>The program.\<close>  A Next.js application.  The browser page
  \<open>src/webapp/src/app/page.tsx\<close> renders the client component
  \<open>src/webapp/src/components/AgentDashboard.tsx\<close>, which keeps an editable
  configuration (sources, keywords, industry, e-mail and WhatsApp recipients, three
  cadence toggles), saves it in \<open>localStorage\<close>, and triggers scans by
  \<open>POST /api/scan\<close> (\<open>src/webapp/src/app/api/scan/route.ts\<close>).  The route decodes
  the request with the zod schema \<open>scanRequestSchema\<close> and calls \<open>runAgentScan\<close>
  of \<open>lib/agent\<close>, the ingest, score, aggregate and notify pipeline of the
  specification, and answers with the report, the per-channel notification outcomes
  and the article count.  \<open>GET /api/scan\<close> runs a scan on the server
  configuration; \<open>src/webapp/src/app/api/reports/route.ts\<close> lists stored reports.
  The \<open>lib/\<close> modules (the pipeline, the types, the default and server
  configurations, the spreadsheet store, the mail and messaging transports) are not
  part of \<open>src/\<close>.

  \<^emph>\<open>The theories.\<close>
  \<^item> \<open>Prelude\<close>: the JavaScript built-ins the code calls on strings
    (\<open>toLowerCase\<close>, \<open>trim\<close>, \<open>includes\<close>, \<open>indexOf\<close>, \<open>String(n)\<close>,
    \<open>Array.from(new Set(xs))\<close>), modelled on ASCII text, with their lemmas.
  \<^item> \<open>Report_Types\<close>: the data exchanged: \<open>agent_config\<close> (the record the
    schema produces), \<open>trigger_mode\<close>, \<open>risk_level\<close> with its order
    \<open>Low < Medium < High\<close> (an instantiation of \<open>linorder\<close>), article, insight,
    report, the notification outcome \<open>Sent | Skipped | Failed\<close> and its JSON shape.
  \<^item> \<open>Scan_Route\<close>: \<open>route.ts\<close>.  JSON values; the schema as an executable decoder
    that collects every issue as zod does and applies \<open>.default\<close> values; the
    handlers \<open>scan_post\<close> and \<open>scan_get\<close>, parametrised by the runner
    \<open>runAgentScan\<close> (a function that throws, \<open>Inl\<close>, or returns).  Lemmas: the
    dashboard's encoding of a valid configuration decodes to itself (C1); an invalid
    one is a 500 that never reaches the runner (C2); the route answers 200 exactly on
    the success path (C3); the defaults of an empty body (C4); the trigger modes of
    \<open>GET\<close> (C5).
  \<^item> \<open>Dashboard\<close>: \<open>AgentDashboard.tsx\<close>.  The component's state is the record
    \<open>dash\<close>; each handler (\<open>handleAdd\<close>, \<open>handleRemove\<close>, \<open>persistConfig\<close>,
    the mount effect, \<open>triggerScan\<close> split at its \<open>await\<close>, the inputs, toggles and
    buttons) is a function on it, and \<open>dash_step\<close> is the event machine; reachable
    states are an inductive predicate, invariants are proved by rule induction.  Lemmas:
    the configuration invariant (C6), the Add button (C7), save and reload (C8), the
    loading flag and the requests in flight (C9 to C11, C13), a successful reply
    (C12), the report cap (C14), the hot keywords (C15), and a failed reply from the
    route (C33).
  \<^item> The pipeline of \<open>lib/agent\<close>, modelled from the specification because it is
    not under \<open>src/\<close>: \<open>Scorer\<close> (keyword matching, risk signal, grounded quotes,
    C25), \<open>Aggregator\<close> (deduplication by URL keeping the riskiest, ordering, severity,
    keyword hits, themes, recommendations; C16 to C18, C22),
    \<open>Dispatcher\<close> (per-channel gating by trigger mode and toggles, independent
    outcomes; C19, C20) and \<open>Orchestrator\<close> (the capabilities record, validation,
    \<open>fetch_all\<close> that skips failing sources, the big-step \<open>run_scan\<close>, the stage
    machine \<open>scan_step\<close> with its reachability predicate, and \<open>agent_runner\<close>
    that gives \<open>run_scan\<close> the runner type of the route; C21, C23, C24, C27, C28;
    the shape \<open>report_wf\<close> of every report, C31).
  \<^item> \<open>Reports_Route\<close>: \<open>reports/route.ts\<close>.  JavaScript's \<open>Number\<close> on the
    \<open>limit\<close> parameter, following the grammar of \<open>StringToNumber\<close> (exact for safe
    integers, the exact decimal value otherwise, \<open>Infinity\<close> and \<open>NaN\<close>), the
    store \<open>loadReports\<close> as a capability that returns or throws, and the handler
    \<open>reports_get\<close>.  Lemma: the status and body of every reply (C29).
  \<^item> This theory composes the parts: a configuration the dashboard sends and the schema
    accepts is answered 200 with the report of \<open>run_scan\<close> (C26); the page's
    history request, answered by a store that honours its limit, keeps the dashboard
    at six reports (C30), through \<open>history_reply\<close>, the page's reading of the
    reply (lines 194 to 201 of the component); the report card of a scan's report has
    unique React keys for every list it renders (C32).

  \<^emph>\<open>Bounds and parameters.\<close>  No loop of the modelled code can run forever: every
  function is structurally recursive or a fold over a list, so no fuel is needed; the
  stage machine reaches its terminal stage in five steps (C24) and its rank strictly
  increases until then (C27).  The policy constants of the pipeline are those the
  specification asks an implementer to choose: three quotes of at most forty characters
  of context on each side, five dominant themes, risk thresholds two and six.
  zod's \<open>.url()\<close> and \<open>.email()\<close> checks, \<open>DEFAULT_CONFIG\<close>,
  \<open>buildServerConfig()\<close> and \<open>buildDefaultConfig()\<close> are parameters.

  \<^emph>\<open>Modelling choices.\<close>
  \<^item> Strings are character lists; \<open>trim\<close> and \<open>toLowerCase\<close> act on ASCII, and the
    schema's \<open>min(2)\<close> on the industry counts characters, not UTF-16 code units.
  \<^item> \<open>String(n)\<close> (\<open>nat_str\<close>) is plain decimal for every \<open>n\<close>; JavaScript switches to
    exponent notation from \<open>10^21\<close>, far beyond any count the page shows.
  \<^item> The text of a \<open>ZodError\<close>'s message (\<open>zod_message\<close>) is a rendering of the
    issues chosen here; no property depends on it beyond its being the error's message.
  \<^item> The notification outcomes' JSON shape (\<open>outcome_json\<close>: \<open>{success: true}\<close>,
    nothing, or \<open>{success: false, error}\<close>) is what the page reads on lines 254 to
    263; how \<open>lib/\<close> encodes the three outcomes in it is an assumption.
  \<^item> The pipeline's capabilities are total functions whose failures are values
    (\<open>Inl\<close>), as the specification asks of fetch and send integrations; so
    \<open>run_scan\<close> fails only on an invalid configuration.  The scorer's policy (cue
    words, thresholds two and six, quote radius, \<open>insightId\<close> the article's URL) is
    the choice documented in \<open>Scorer\<close>.
  \<^item> The dashboard may receive \<open>Mount\<close> and history replies at any time and scan
    replies in any order, an over-approximation of the page that keeps the invariants
    sound.  A scan reply is not tied to the configuration of its request, and a
    success body is assumed well formed.
  \<^item> A stored configuration is a record of optional fields of the right types;
    stored fields of another type, and the order \<open>Object.entries\<close> gives
    integer-like keyword keys in \<open>keywordHighlights\<close>, are not modelled.

  \<^emph>\<open>Not modelled.\<close>  \<open>page.tsx\<close>, which only renders the dashboard inside a
  styled container; the static headings and the list of report cards of the dashboard
  (its data is \<open>reports\<close>, rendered by \<open>ReportCard\<close>); styling and layout of the
  JSX, \<open>toLocaleString\<close> date rendering, \<open>console\<close> logging; the value of
  \<open>Number\<close> on non-integer text (kept opaque); and the transports' I/O: the RSS parsing behind \<open>fetchSource\<close>,
  the mail and WhatsApp APIs behind the senders and the spreadsheet store are
  capabilities whose results (success or an error message) are all the model sees.
\<close>

abbreviation sample_store :: report_loader where
  "sample_store \<equiv> \<lambda>l. case l of JInt n \<Rightarrow> Inr (replicate (nat n) sample_report) | _ \<Rightarrow> Inl (JsError ''bad limit'')"

definition history_reply :: "reports_response \<Rightarrow> dash_event" where
  "history_reply resp = HistoryLoaded (case r_body resp of ReportsOk rs \<Rightarrow> Some rs | ReportsError _ \<Rightarrow> None)"

lemma config_valid_run_scan_ok: "config_valid env c \<Longrightarrow> validate_config c = None"
  by (simp add: config_valid_def validate_config_def)

text \<open>C26. Route and pipeline together: a configuration the schema accepts, sent as the
  dashboard sends it, is answered 200 with exactly the result \<open>run_scan\<close> computes
  for that configuration and trigger mode.\<close>
theorem full_stack_scan_post:
  assumes "config_valid env c"
  shows "\<exists>r. run_scan caps c m = Inr r \<and>
    scan_post env (agent_runner caps) (ValidJson (scan_request_json c m)) = ok_response r"
proof -
  have p: "parse_scan_request env (scan_request_json c m) = Inr (c, m)"
    using assms by (simp add: parse_scan_request_json parse_config_json_valid)
  show ?thesis
    using run_scan_ok[OF config_valid_run_scan_ok[OF assms]]
    by (simp add: scan_post_def p agent_runner_def)
qed

theorem full_stack_scan_post_witness:
  "config_valid sample_env tariff_config \<and>
   (\<exists>r. run_scan tariff_caps tariff_config Realtime = Inr r \<and>
     scan_post sample_env (agent_runner tariff_caps) (ValidJson (scan_request_json tariff_config Realtime)) =
       ok_response r)"
proof -
  have v: "config_valid sample_env tariff_config" by (simp add: config_valid_def)
  show ?thesis using v full_stack_scan_post[OF v, of tariff_caps Realtime] by blast
qed
lemma history_reply_ok:
  assumes "\<forall>n rs. load (JInt n) = Inr rs \<longrightarrow> length rs \<le> nat n"
  shows "history_ok (history_reply (reports_get load (Some ''6'')))"
proof -
  have l: "limit_param (Some ''6'') = JInt 6" by (rule limit_param_6)
  show ?thesis
  proof (cases "load (JInt 6)")
    case (Inl t)
    then show ?thesis using l by (simp add: history_reply_def reports_get_def)
  next
    case (Inr rs)
    then have "length rs \<le> 6" using assms by fastforce
    then show ?thesis using Inr l by (simp add: history_reply_def reports_get_def)
  qed
qed

text \<open>C30. Reports route, store and dashboard together: when the store returns at most
  \<open>limit\<close> reports, every history reply the page receives from its
  \<open>/api/reports?limit=6\<close> request keeps the dashboard at six reports or fewer,
  whatever scans and other events happen in between.\<close>
theorem history_store_caps_reports:
  assumes "\<forall>n rs. load (JInt n) = Inr rs \<longrightarrow> length rs \<le> nat n"
    and "\<forall>e\<in>set es. (\<exists>r. e = HistoryLoaded r) \<longrightarrow> e = history_reply (reports_get load (Some ''6''))"
  shows "length (reports (dash_run d (init_dash d st) es)) \<le> 6"
proof -
  have "list_all history_ok es"
    unfolding list_all_iff
  proof
    fix e assume "e \<in> set es"
    then have "(\<exists>r. e = HistoryLoaded r) \<longrightarrow> e = history_reply (reports_get load (Some ''6''))"
      using assms(2) by blast
    then show "history_ok e" using history_reply_ok[OF assms(1)] by (cases e) auto
  qed
  then show ?thesis by (rule reports_bound)
qed

theorem history_store_caps_reports_witness:
  "length (reports (dash_run sample_config (init_dash sample_config None)
     [Mount, history_reply (reports_get sample_store (Some ''6''))])) \<le> 6"
proof -
  have s: "\<forall>n rs. sample_store (JInt n) = Inr rs \<longrightarrow> length rs \<le> nat n" by auto
  have e: "\<forall>e\<in>set [Mount, history_reply (reports_get sample_store (Some ''6''))].
      (\<exists>r. e = HistoryLoaded r) \<longrightarrow> e = history_reply (reports_get sample_store (Some ''6''))" by simp
  show ?thesis by (rule history_store_caps_reports[OF s e])
qed
text \<open>C32. Dashboard and pipeline together: the report card of a scan's report renders
  every list with unique React keys: themes (\<open>key={theme}\<close>), signals
  (\<open>key={insight.id}\<close>), recommendations (\<open>key={recommendation}\<close>), and within
  each signal its quotes (\<open>key={quote}\<close>) and categories (\<open>key={category}\<close>).\<close>
theorem report_card_keys_unique:
  assumes "run_scan caps c m = Inr r"
  shows "let v = ReportCard (report r)
    in distinct (cv_themes v) \<and> distinct (map iv_key (cv_signals v)) \<and> distinct (cv_moves v) \<and>
       list_all (\<lambda>w. distinct (iv_categories w) \<and> case_option True distinct (iv_quotes w)) (cv_signals v)"
proof -
  let ?k = "order_insights (dedupe_by_url
      (score_all (keywordList c) (industry c) (fetch_all (fetchSource caps) (sources c))))"
  from insights_run_scan[OF assms] have d: "distinct (map url_of (insights (report r)))"
    and s: "\<forall>i\<in>set (insights (report r)). \<exists>a. score_article (keywordList c) (industry c) a = Some i"
    by simp_all
  have keys: "map iv_key (cv_signals (ReportCard (report r))) = map url_of (insights (report r))"
    using s by (auto simp: ReportCard_def insight_card_def dest: score_article_Some)
  have th: "cv_themes (ReportCard (report r)) = dominant_themes ?k"
    using run_scan_Inr_D[OF assms] by (simp add: ReportCard_def)
  have mv: "cv_moves (ReportCard (report r)) =
      recommendations_for (report_severity ?k) (dominant_themes ?k)"
    using run_scan_Inr_D[OF assms] by (simp add: ReportCard_def)
  have per: "list_all (\<lambda>w. distinct (iv_categories w) \<and> case_option True distinct (iv_quotes w))
      (cv_signals (ReportCard (report r)))"
    unfolding list_all_iff
  proof
    fix w assume "w \<in> set (cv_signals (ReportCard (report r)))"
    then obtain i where i: "i \<in> set (insights (report r))" "w = insight_card i"
      by (auto simp: ReportCard_def)
    from s i(1) obtain a where "score_article (keywordList c) (industry c) a = Some i" by blast
    from score_article_Some[OF this]
    show "distinct (iv_categories w) \<and> case_option True distinct (iv_quotes w)"
      by (simp add: i(2) insight_card_def distinct_key_quotes distinct_matched_keywords)
  qed
  show ?thesis
    using d keys th mv per distinct_dominant_themes[of ?k]
      distinct_recommendations_for[OF distinct_dominant_themes[of ?k]]
    by (simp add: Let_def)
qed

theorem report_card_keys_unique_witness:
  "\<exists>r. run_scan tariff_caps tariff_config Realtime = Inr r \<and>
     (let v = ReportCard (report r)
      in distinct (cv_themes v) \<and> distinct (map iv_key (cv_signals v)) \<and> distinct (cv_moves v) \<and>
         list_all (\<lambda>w. distinct (iv_categories w) \<and> case_option True distinct (iv_quotes w)) (cv_signals v))"
proof -
  obtain r where r: "run_scan tariff_caps tariff_config Realtime = Inr r"
    using tariff_run by (auto split: sum.splits)
  show ?thesis using r report_card_keys_unique[OF r] by blast
qed

end
